theory Spec2Isabelle
  imports Main "HOL-Library.Word"
begin

section \<open>Strings\<close>

text \<open>
  A JavaScript string is a finite sequence of 16-bit code units.  The literals of the
  source are ASCII; \<open>ascii\<close> gives the code units of such a literal.
\<close>

type_synonym jschar = "16 word"
type_synonym jsstring = "jschar list"

definition ascii :: "string \<Rightarrow> jsstring" where
  "ascii s = map of_char s"

text \<open>\<^verbatim>\<open>Array.prototype.join\<close>: the pieces with the separator between neighbours.\<close>

fun join_with :: "'a list \<Rightarrow> 'a list list \<Rightarrow> 'a list" where
  "join_with sep [] = []"
| "join_with sep [x] = x"
| "join_with sep (x # y # xs) = x @ sep @ join_with sep (y # xs)"

text \<open>
  \<^verbatim>\<open>String.prototype.toLowerCase\<close> on the code units \<open>A\<close> to \<open>Z\<close>.  The only strings the
  source lower-cases are the values of the enum \<open>OS\<close>, which are ASCII.
\<close>

definition toLowerCase :: "jsstring \<Rightarrow> jsstring" where
  "toLowerCase s = map (\<lambda>c. if 0x41 \<le> c \<and> c \<le> 0x5A then c + 0x20 else c) s"

section \<open>Data model (src/types.ts)\<close>

datatype OS = UBUNTU | DEBIAN | ARCH | FEDORA | ALPINE

datatype Arch = X86_64 | ARM64

text \<open>The string value of each member, as \<^verbatim>\<open>export enum OS\<close> and \<^verbatim>\<open>export enum Arch\<close> give it.\<close>

fun OS_value :: "OS \<Rightarrow> jsstring" where
  "OS_value UBUNTU = ascii ''Ubuntu''"
| "OS_value DEBIAN = ascii ''Debian''"
| "OS_value ARCH = ascii ''Arch Linux''"
| "OS_value FEDORA = ascii ''Fedora''"
| "OS_value ALPINE = ascii ''Alpine Linux''"

fun Arch_value :: "Arch \<Rightarrow> jsstring" where
  "Arch_value X86_64 = ascii ''x86_64''"
| "Arch_value ARM64 = ascii ''aarch64''"

record ISOConfig =
  os :: OS
  version :: jsstring
  architecture :: Arch
  hostname :: jsstring
  username :: jsstring
  password :: "jsstring option"
  packages :: "jsstring list"
  customScripts :: jsstring
  isCloudInitEnabled :: bool

record GeneratedFile =
  name :: jsstring
  content :: jsstring
  language :: jsstring

datatype LogType = info | success | warning | error

record BuildLog =
  timestamp :: jsstring
  message :: jsstring
  type :: LogType

section \<open>JSON values\<close>

text \<open>
  What \<^verbatim>\<open>JSON.parse\<close> can return.  An object is the list of its own properties in
  property order.  A number is kept as the characters of its literal: the rounding of
  the literal to an IEEE double is outside this model, and no statement below depends
  on the value of a number.
\<close>

datatype json =
    JNull
  | JBool bool
  | JNumber jsstring
  | JString jsstring
  | JArray "json list"
  | JObject "(jsstring \<times> json) list"

text \<open>
  The value of type \<^verbatim>\<open>GeneratedFile[]\<close> that a list of artifacts is at run time: an array
  of objects with the three string properties in the order of the interface.
\<close>

definition GeneratedFile_json :: "GeneratedFile \<Rightarrow> json" where
  "GeneratedFile_json f =
     JObject [(ascii ''name'', JString (name f)),
              (ascii ''content'', JString (content f)),
              (ascii ''language'', JString (language f))]"

definition GeneratedFiles_json :: "GeneratedFile list \<Rightarrow> json" where
  "GeneratedFiles_json fs = JArray (map GeneratedFile_json fs)"

text \<open>
  A value has the shape of the interface \<^verbatim>\<open>GeneratedFile\<close> when it is an object with
  string properties \<open>name\<close>, \<open>content\<close> and \<open>language\<close> (TypeScript's structural typing
  lets it have others); it is exactly a \<^verbatim>\<open>{name, content, language}\<close> record when these
  three are all its properties.
\<close>

definition string_property :: "(jsstring \<times> json) list \<Rightarrow> jsstring \<Rightarrow> bool" where
  "string_property ps k = (case map_of ps k of Some (JString s) \<Rightarrow> True | _ \<Rightarrow> False)"

fun is_GeneratedFile :: "json \<Rightarrow> bool" where
  "is_GeneratedFile (JObject ps) \<longleftrightarrow>
     string_property ps (ascii ''name'') \<and> string_property ps (ascii ''content'')
     \<and> string_property ps (ascii ''language'')"
| "is_GeneratedFile _ \<longleftrightarrow> False"

fun is_record :: "json \<Rightarrow> bool" where
  "is_record (JObject ps) \<longleftrightarrow> is_GeneratedFile (JObject ps) \<and> length ps = 3"
| "is_record _ \<longleftrightarrow> False"

fun is_GeneratedFile_list :: "json \<Rightarrow> bool" where
  "is_GeneratedFile_list (JArray vs) \<longleftrightarrow> list_all is_GeneratedFile vs"
| "is_GeneratedFile_list _ \<longleftrightarrow> False"

fun is_record_list :: "json \<Rightarrow> bool" where
  "is_record_list (JArray vs) \<longleftrightarrow> list_all is_record vs"
| "is_record_list _ \<longleftrightarrow> False"

section \<open>JSON.parse\<close>

text \<open>
  \<^verbatim>\<open>JSON.parse\<close> is a function of the platform, modelled after ECMA-262 (25.5.1) and the
  JSON grammar of ECMA-404: the text is cut into tokens, white space between them is
  dropped, and the tokens must form exactly one value.  \<open>None\<close> stands for the
  \<^verbatim>\<open>SyntaxError\<close> it throws.
\<close>

datatype token =
    LBracket | RBracket | LBrace | RBrace | Comma | Colon
  | TNull | TTrue | TFalse
  | TNumber jsstring
  | TString jsstring

text \<open>White space is tab, line feed, carriage return and space.\<close>

definition is_ws :: "jschar \<Rightarrow> bool" where
  "is_ws c \<longleftrightarrow> c = 0x09 \<or> c = 0x0A \<or> c = 0x0D \<or> c = 0x20"

definition is_digit :: "jschar \<Rightarrow> bool" where
  "is_digit c \<longleftrightarrow> 0x30 \<le> c \<and> c \<le> 0x39"

definition hex_value :: "jschar \<Rightarrow> nat option" where
  "hex_value c =
     (if 0x30 \<le> c \<and> c \<le> 0x39 then Some (unat c - 0x30)
      else if 0x41 \<le> c \<and> c \<le> 0x46 then Some (unat c - 0x41 + 10)
      else if 0x61 \<le> c \<and> c \<le> 0x66 then Some (unat c - 0x61 + 10)
      else None)"

text \<open>
  The character after a backslash in a two-character escape (quote, backslash, slash,
  \<open>b\<close>, \<open>f\<close>, \<open>n\<close>, \<open>r\<close>, \<open>t\<close>) and the code unit the escape stands for.
\<close>

definition simple_escape :: "jschar \<Rightarrow> jschar option" where
  "simple_escape e =
     (if e = 0x22 then Some 0x22
      else if e = 0x5C then Some 0x5C
      else if e = 0x2F then Some 0x2F
      else if e = 0x62 then Some 0x08
      else if e = 0x66 then Some 0x0C
      else if e = 0x6E then Some 0x0A
      else if e = 0x72 then Some 0x0D
      else if e = 0x74 then Some 0x09
      else None)"

text \<open>The code unit of a \<open>u\<close> escape, from its four hexadecimal digits.\<close>

definition unicode_escape :: "jschar \<Rightarrow> jschar \<Rightarrow> jschar \<Rightarrow> jschar \<Rightarrow> jschar option" where
  "unicode_escape h1 h2 h3 h4 =
     (case (hex_value h1, hex_value h2, hex_value h3, hex_value h4) of
        (Some a, Some b, Some c, Some d) \<Rightarrow> Some (of_nat (((a * 16 + b) * 16 + c) * 16 + d))
      | _ \<Rightarrow> None)"

definition consumed :: "'a \<Rightarrow> ('a list \<times> 'b) option \<Rightarrow> ('a list \<times> 'b) option" where
  "consumed x r = map_option (\<lambda>(xs, rest). (x # xs, rest)) r"

text \<open>
  The characters of a string after its opening quote: the string's value and the text
  after the closing quote.  A string may hold any code unit but the quote, the
  backslash and the control characters below \<open>0x20\<close>, which must be escaped.
\<close>

fun scan_string :: "jsstring \<Rightarrow> (jsstring \<times> jsstring) option" where
  "scan_string [] = None"
| "scan_string (c # cs) =
     (if c = 0x22 then Some ([], cs)
      else if c = 0x5C then
        (case cs of
           [] \<Rightarrow> None
         | e # ds \<Rightarrow>
             if e = 0x75 then
               (case ds of
                  h1 # h2 # h3 # h4 # rest \<Rightarrow>
                    (case unicode_escape h1 h2 h3 h4 of
                       None \<Rightarrow> None
                     | Some u \<Rightarrow> consumed u (scan_string rest))
                | _ \<Rightarrow> None)
             else
               (case simple_escape e of
                  None \<Rightarrow> None
                | Some u \<Rightarrow> consumed u (scan_string ds)))
      else if c < 0x20 then None
      else consumed c (scan_string cs))"

text \<open>
  A number is \<^verbatim>\<open>[-] int [frac] [exp]\<close>: \<open>int\<close> is \<open>0\<close> or a digit \<open>1\<close> to \<open>9\<close> and more
  digits, \<open>frac\<close> a point and digits, \<open>exp\<close> an \<open>e\<close> or \<open>E\<close>, a sign if any, and digits.
  Each scanner returns the characters it took and the text left.
\<close>

definition scan_int :: "jsstring \<Rightarrow> (jsstring \<times> jsstring) option" where
  "scan_int cs =
     (case cs of
        [] \<Rightarrow> None
      | d # rest \<Rightarrow>
          if d = 0x30 then Some ([d], rest)
          else if is_digit d then Some (d # takeWhile is_digit rest, dropWhile is_digit rest)
          else None)"

definition scan_frac :: "jsstring \<Rightarrow> jsstring \<times> jsstring" where
  "scan_frac cs =
     (case cs of
        p # d # rest \<Rightarrow>
          if p = 0x2E \<and> is_digit d
          then (p # d # takeWhile is_digit rest, dropWhile is_digit rest)
          else ([], cs)
      | _ \<Rightarrow> ([], cs))"

definition scan_exp :: "jsstring \<Rightarrow> jsstring \<times> jsstring" where
  "scan_exp cs =
     (case cs of
        e # rest \<Rightarrow>
          if e = 0x65 \<or> e = 0x45 then
            (case rest of
               s # d # rest' \<Rightarrow>
                 if (s = 0x2B \<or> s = 0x2D) \<and> is_digit d
                 then (e # s # d # takeWhile is_digit rest', dropWhile is_digit rest')
                 else if is_digit s
                 then (e # s # takeWhile is_digit (d # rest'), dropWhile is_digit (d # rest'))
                 else ([], cs)
             | [s] \<Rightarrow> if is_digit s then ([e, s], []) else ([], cs)
             | [] \<Rightarrow> ([], cs))
          else ([], cs)
      | [] \<Rightarrow> ([], cs))"

definition scan_number :: "jsstring \<Rightarrow> (jsstring \<times> jsstring) option" where
  "scan_number cs =
     (let (sign, cs1) =
            (case cs of c # r \<Rightarrow> if c = 0x2D then ([c], r) else ([], cs) | [] \<Rightarrow> ([], cs))
      in case scan_int cs1 of
           None \<Rightarrow> None
         | Some (i, cs2) \<Rightarrow>
             let (f, cs3) = scan_frac cs2; (e, cs4) = scan_exp cs3
             in Some (sign @ i @ f @ e, cs4))"

fun strip_prefix :: "'a list \<Rightarrow> 'a list \<Rightarrow> 'a list option" where
  "strip_prefix [] ys = Some ys"
| "strip_prefix (x # xs) [] = None"
| "strip_prefix (x # xs) (y # ys) = (if x = y then strip_prefix xs ys else None)"

definition emit :: "token \<Rightarrow> token list option \<Rightarrow> token list option" where
  "emit t r = map_option ((#) t) r"

lemma scan_string_shorter: "scan_string cs = Some (s, rest) \<Longrightarrow> length rest < length cs"
proof (induction cs arbitrary: s rest rule: scan_string.induct)
  case 1
  then show ?case by simp
next
  case (2 c cs)
  then show ?case
    by (fastforce simp: consumed_def split: if_splits list.splits option.splits)
qed

lemma strip_prefix_shorter: "strip_prefix p cs = Some rest \<Longrightarrow> length rest \<le> length cs"
  by (induction p cs rule: strip_prefix.induct) (auto split: if_splits)

lemma length_dropWhile_digits: "length (dropWhile P xs) \<le> length xs"
  by (induction xs) auto

lemma scan_int_shorter: "scan_int cs = Some (i, rest) \<Longrightarrow> length rest < length cs"
  by (auto simp: scan_int_def less_Suc_eq_le length_dropWhile_digits split: list.splits if_splits)

lemma scan_frac_shorter: "scan_frac cs = (f, rest) \<Longrightarrow> length rest \<le> length cs"
  by (auto simp: scan_frac_def le_SucI length_dropWhile_digits split: list.splits if_splits)

lemma scan_exp_shorter: "scan_exp cs = (e, rest) \<Longrightarrow> length rest \<le> length cs"
  by (auto simp: scan_exp_def le_SucI length_dropWhile_digits split: list.splits if_splits)

lemma scan_number_shorter: "scan_number cs = Some (n, rest) \<Longrightarrow> length rest < length cs"
  by (auto simp: scan_number_def Let_def split: list.splits if_splits option.splits prod.splits
      dest!: scan_int_shorter scan_frac_shorter scan_exp_shorter)

text \<open>The tokens of a text; \<open>None\<close> when some character starts no token.\<close>

function tokenize :: "jsstring \<Rightarrow> token list option" where
  "tokenize [] = Some []"
| "tokenize (c # cs) =
     (if is_ws c then tokenize cs
      else if c = 0x5B then emit LBracket (tokenize cs)
      else if c = 0x5D then emit RBracket (tokenize cs)
      else if c = 0x7B then emit LBrace (tokenize cs)
      else if c = 0x7D then emit RBrace (tokenize cs)
      else if c = 0x2C then emit Comma (tokenize cs)
      else if c = 0x3A then emit Colon (tokenize cs)
      else if c = 0x22 then
        (case scan_string cs of
           None \<Rightarrow> None
         | Some (s, rest) \<Rightarrow> emit (TString s) (tokenize rest))
      else if c = 0x6E then
        (case strip_prefix (ascii ''ull'') cs of
           None \<Rightarrow> None
         | Some rest \<Rightarrow> emit TNull (tokenize rest))
      else if c = 0x74 then
        (case strip_prefix (ascii ''rue'') cs of
           None \<Rightarrow> None
         | Some rest \<Rightarrow> emit TTrue (tokenize rest))
      else if c = 0x66 then
        (case strip_prefix (ascii ''alse'') cs of
           None \<Rightarrow> None
         | Some rest \<Rightarrow> emit TFalse (tokenize rest))
      else
        (case scan_number (c # cs) of
           None \<Rightarrow> None
         | Some (n, rest) \<Rightarrow> emit (TNumber n) (tokenize rest)))"
  by pat_completeness auto
termination
  by (relation "measure length")
     (auto dest: scan_string_shorter strip_prefix_shorter scan_number_shorter)

text \<open>
  Property order of an ordinary object (OrdinaryOwnPropertyKeys): the keys that are array
  indices in ascending order, then the other keys in the order of their creation.
  An array index is the canonical decimal form of an integer from \<open>0\<close> to \<open>2^32 - 2\<close>.
  Defining a key the object has already replaces the value and keeps the place, so of
  two members with one key the later value stands.
\<close>

definition index_value :: "jsstring \<Rightarrow> int" where
  "index_value k = foldl (\<lambda>a d. a * 10 + (uint d - 0x30)) 0 k"

definition is_array_index :: "jsstring \<Rightarrow> bool" where
  "is_array_index k \<longleftrightarrow>
     k \<noteq> [] \<and> list_all is_digit k \<and> (length k = 1 \<or> hd k \<noteq> 0x30) \<and> index_value k < 4294967295"

fun insert_index :: "jsstring \<Rightarrow> json \<Rightarrow> (jsstring \<times> json) list \<Rightarrow> (jsstring \<times> json) list" where
  "insert_index k v [] = [(k, v)]"
| "insert_index k v ((k', v') # ps) =
     (if is_array_index k' \<and> index_value k' < index_value k
      then (k', v') # insert_index k v ps
      else (k, v) # (k', v') # ps)"

definition CreateDataProperty ::
  "(jsstring \<times> json) list \<Rightarrow> jsstring \<times> json \<Rightarrow> (jsstring \<times> json) list" where
  "CreateDataProperty ps m =
     (case m of (k, v) \<Rightarrow>
        if k \<in> fst ` set ps then map (\<lambda>(k', v'). if k' = k then (k', v) else (k', v')) ps
        else if is_array_index k then insert_index k v ps
        else ps @ [(k, v)])"

definition object_of :: "(jsstring \<times> json) list \<Rightarrow> json" where
  "object_of ms = JObject (foldl CreateDataProperty [] ms)"

text \<open>
  The grammar, by recursive descent: a value, the elements of an array after its
  opening bracket, the members of an object after its opening brace.  Each returns what
  it read and the tokens left.  The test \<open>length rest < length ts\<close> is there for the
  termination proof only: \<open>parse_value_shorter\<close> below shows that it never fails.
\<close>

function (sequential) parse_value :: "token list \<Rightarrow> (json \<times> token list) option"
  and parse_elements :: "token list \<Rightarrow> (json list \<times> token list) option"
  and parse_members :: "token list \<Rightarrow> ((jsstring \<times> json) list \<times> token list) option"
where
  "parse_value (TNull # rest) = Some (JNull, rest)"
| "parse_value (TTrue # rest) = Some (JBool True, rest)"
| "parse_value (TFalse # rest) = Some (JBool False, rest)"
| "parse_value (TNumber n # rest) = Some (JNumber n, rest)"
| "parse_value (TString s # rest) = Some (JString s, rest)"
| "parse_value (LBracket # rest) =
     (if rest \<noteq> [] \<and> hd rest = RBracket then Some (JArray [], tl rest)
      else case parse_elements rest of
             None \<Rightarrow> None
           | Some (vs, rest') \<Rightarrow> Some (JArray vs, rest'))"
| "parse_value (LBrace # rest) =
     (if rest \<noteq> [] \<and> hd rest = RBrace then Some (JObject [], tl rest)
      else case parse_members rest of
             None \<Rightarrow> None
           | Some (ms, rest') \<Rightarrow> Some (object_of ms, rest'))"
| "parse_value _ = None"
| "parse_elements ts =
     (case parse_value ts of
        None \<Rightarrow> None
      | Some (v, rest) \<Rightarrow>
          if length rest < length ts then
            (case rest of
               Comma # rest' \<Rightarrow>
                 (case parse_elements rest' of
                    None \<Rightarrow> None
                  | Some (vs, rest'') \<Rightarrow> Some (v # vs, rest''))
             | RBracket # rest' \<Rightarrow> Some ([v], rest')
             | _ \<Rightarrow> None)
          else None)"
| "parse_members (TString k # Colon # ts) =
     (case parse_value ts of
        None \<Rightarrow> None
      | Some (v, rest) \<Rightarrow>
          if length rest < length ts then
            (case rest of
               Comma # rest' \<Rightarrow>
                 (case parse_members rest' of
                    None \<Rightarrow> None
                  | Some (ms, rest'') \<Rightarrow> Some ((k, v) # ms, rest''))
             | RBrace # rest' \<Rightarrow> Some ([(k, v)], rest')
             | _ \<Rightarrow> None)
          else None)"
| "parse_members _ = None"
  by pat_completeness auto
termination
  by (relation "measure (\<lambda>x. case x of Inl ts \<Rightarrow> 2 * length ts
                                   | Inr (Inl ts) \<Rightarrow> 2 * length ts + 1
                                   | Inr (Inr ts) \<Rightarrow> 2 * length ts + 1)")
     auto

definition JSON_parse :: "jsstring \<Rightarrow> json option" where
  "JSON_parse text =
     (case tokenize text of
        None \<Rightarrow> None
      | Some ts \<Rightarrow>
          (case parse_value ts of
             Some (v, []) \<Rightarrow> Some v
           | _ \<Rightarrow> None))"

section \<open>JSON.stringify\<close>

text \<open>
  \<^verbatim>\<open>JSON.stringify(value, null, 2)\<close> after ECMA-262 (25.5.2), on the values above.
  \<open>QuoteJSONString\<close> escapes the quote, the backslash and the control characters, and
  writes a surrogate that has no partner as a \<open>u\<close> escape; a leading surrogate with its
  trailing one is copied.
\<close>

definition hex_digit :: "nat \<Rightarrow> jschar" where
  "hex_digit n = (if n < 10 then of_nat (0x30 + n) else of_nat (0x61 + (n - 10)))"

definition UnicodeEscape :: "jschar \<Rightarrow> jsstring" where
  "UnicodeEscape c =
     (let n = unat c
      in [0x5C, 0x75, hex_digit (n div 4096), hex_digit (n div 256 mod 16),
          hex_digit (n div 16 mod 16), hex_digit (n mod 16)])"

definition is_leading_surrogate :: "jschar \<Rightarrow> bool" where
  "is_leading_surrogate c \<longleftrightarrow> 0xD800 \<le> c \<and> c \<le> 0xDBFF"

definition is_trailing_surrogate :: "jschar \<Rightarrow> bool" where
  "is_trailing_surrogate c \<longleftrightarrow> 0xDC00 \<le> c \<and> c \<le> 0xDFFF"

definition quote_unit :: "jschar \<Rightarrow> jsstring" where
  "quote_unit c =
     (if c = 0x08 then [0x5C, 0x62]
      else if c = 0x09 then [0x5C, 0x74]
      else if c = 0x0A then [0x5C, 0x6E]
      else if c = 0x0C then [0x5C, 0x66]
      else if c = 0x0D then [0x5C, 0x72]
      else if c = 0x22 then [0x5C, 0x22]
      else if c = 0x5C then [0x5C, 0x5C]
      else if c < 0x20 then UnicodeEscape c
      else [c])"

fun quote_units :: "jsstring \<Rightarrow> jsstring" where
  "quote_units [] = []"
| "quote_units [c] =
     (if is_leading_surrogate c \<or> is_trailing_surrogate c then UnicodeEscape c
      else quote_unit c)"
| "quote_units (c # d # cs) =
     (if is_leading_surrogate c then
        (if is_trailing_surrogate d then c # d # quote_units cs
         else UnicodeEscape c @ quote_units (d # cs))
      else if is_trailing_surrogate c then UnicodeEscape c @ quote_units (d # cs)
      else quote_unit c @ quote_units (d # cs))"

definition QuoteJSONString :: "jsstring \<Rightarrow> jsstring" where
  "QuoteJSONString s = [0x22] @ quote_units s @ [0x22]"

text \<open>The indentation unit of \<^verbatim>\<open>JSON.stringify(_, null, 2)\<close>: two spaces.\<close>

definition gap :: jsstring where
  "gap = [0x20, 0x20]"

text \<open>
  \<open>num\<close> writes a number: it stands for Number::toString of the literal's double, which
  is not modelled.  \<open>indent\<close> is the indentation of the enclosing line.
\<close>

fun SerializeJSONProperty :: "(jsstring \<Rightarrow> jsstring) \<Rightarrow> jsstring \<Rightarrow> json \<Rightarrow> jsstring" where
  "SerializeJSONProperty num indent JNull = ascii ''null''"
| "SerializeJSONProperty num indent (JBool b) = (if b then ascii ''true'' else ascii ''false'')"
| "SerializeJSONProperty num indent (JNumber n) = num n"
| "SerializeJSONProperty num indent (JString s) = QuoteJSONString s"
| "SerializeJSONProperty num indent (JArray vs) =
     (if vs = [] then ascii ''[]''
      else
        [0x5B, 0x0A] @ (indent @ gap)
        @ join_with ([0x2C, 0x0A] @ (indent @ gap))
            (map (SerializeJSONProperty num (indent @ gap)) vs)
        @ [0x0A] @ indent @ [0x5D])"
| "SerializeJSONProperty num indent (JObject ps) =
     (if ps = [] then ascii ''{}''
      else
        [0x7B, 0x0A] @ (indent @ gap)
        @ join_with ([0x2C, 0x0A] @ (indent @ gap))
            (map (\<lambda>p. QuoteJSONString (fst p) @ [0x3A, 0x20]
                       @ SerializeJSONProperty num (indent @ gap) (snd p)) ps)
        @ [0x0A] @ indent @ [0x7D])"

definition JSON_stringify :: "(jsstring \<Rightarrow> jsstring) \<Rightarrow> json \<Rightarrow> jsstring" where
  "JSON_stringify num v = SerializeJSONProperty num [] v"

section \<open>The blueprint generator (src/services/geminiService.ts)\<close>

text \<open>The template literal of \<^verbatim>\<open>generateISOBlueprint\<close>, line by line.\<close>

definition prompt :: "ISOConfig \<Rightarrow> jsstring" where
  "prompt config =
     ascii ''Generate a complete set of configuration files for a bootable ''
       @ OS_value (os config) @ ascii '' ISO.'' @ [0x0A]
     @ ascii ''  Target Architecture: '' @ Arch_value (architecture config) @ [0x0A]
     @ ascii ''  Hostname: '' @ hostname config @ [0x0A]
     @ ascii ''  User: '' @ username config @ [0x0A]
     @ ascii ''  Included Packages: '' @ join_with (ascii '', '') (packages config) @ [0x0A]
     @ ascii ''  Cloud-Init: ''
       @ (if isCloudInitEnabled config then ascii ''Enabled'' else ascii ''Disabled'') @ [0x0A]
     @ ascii ''  Custom Instructions: '' @ customScripts config @ [0x0A]
     @ [0x0A]
     @ ascii ''  Provide a professional set of files including:'' @ [0x0A]
     @ ascii ''  1. A README.md with detailed instructions on how to use xorriso/mkisofs to build this.''
       @ [0x0A]
     @ ascii ''  2. The main installation configuration (e.g., user-data for Ubuntu/Cloud-init, preseed.cfg for Debian, or answers.yaml for Alpine).''
       @ [0x0A]
     @ ascii ''  3. A shell script (build.sh) that automates the image creation process.'' @ [0x0A]
     @ ascii ''  4. A secondary config file (e.g., grub.cfg or isolinux.cfg).'' @ [0x0A]
     @ [0x0A]
     @ ascii ''  Ensure the output is a valid JSON array of objects with '' @ [0x27] @ ascii ''name''
       @ [0x27] @ ascii '', '' @ [0x27] @ ascii ''content'' @ [0x27] @ ascii '', and '' @ [0x27]
       @ ascii ''language'' @ [0x27] @ ascii '' fields.''"

text \<open>
  A thrown JavaScript error, with its \<^verbatim>\<open>message\<close>.  The awaited call
  \<^verbatim>\<open>ai.models.generateContent\<close> settles in one of two ways: it rejects with an error
  (\<open>Inl\<close>), or it resolves to a response whose \<^verbatim>\<open>text\<close> is a string or undefined
  (\<open>Inr\<close>, with \<open>None\<close> for undefined).
\<close>

datatype Error = Error jsstring

type_synonym settled = "Error + jsstring option"

text \<open>
  Lines 45 to 50, with what came before them: the \<^verbatim>\<open>await\<close> of line 25 stands outside the
  \<^verbatim>\<open>try\<close>, so a rejection of the call leaves \<^verbatim>\<open>generateISOBlueprint\<close> as a rejection
  (\<open>Inl\<close>); inside the \<^verbatim>\<open>try\<close>, the text (or \<^verbatim>\<open>'[]'\<close> when it is undefined or empty) is
  parsed and the value returned as it is, and a \<^verbatim>\<open>SyntaxError\<close> is caught, written to the
  console and answered with the empty array.  The first component is what the function
  writes with \<^verbatim>\<open>console.error\<close>.
\<close>

fun after_generateContent :: "settled \<Rightarrow> jsstring list \<times> (Error + json)" where
  "after_generateContent (Inl e) = ([], Inl e)"
| "after_generateContent (Inr text) =
     (case JSON_parse (case text of None \<Rightarrow> ascii ''[]'' | Some t \<Rightarrow> if t = [] then ascii ''[]'' else t) of
        Some v \<Rightarrow> ([], Inr v)
      | None \<Rightarrow> ([ascii ''Failed to parse AI response''], Inr (JArray [])))"

text \<open>
  The whole function: \<open>generateContent\<close> is the completion service, which answers the
  prompt (the model name and the response schema of the request are constants).
\<close>

definition generateISOBlueprint ::
  "(jsstring \<Rightarrow> settled) \<Rightarrow> ISOConfig \<Rightarrow> jsstring list \<times> (Error + json)" where
  "generateISOBlueprint generateContent config = after_generateContent (generateContent (prompt config))"

section \<open>The page (src/App.tsx)\<close>

text \<open>The six state variables of the component \<^verbatim>\<open>App\<close>.\<close>

record App =
  config :: ISOConfig
  newPackage :: jsstring
  isGenerating :: bool
  logs :: "BuildLog list"
  generatedFiles :: json
  activeStep :: nat

text \<open>
  \<^verbatim>\<open>generatedFiles\<close> is declared \<^verbatim>\<open>GeneratedFile[]\<close>, but it receives whatever
  \<^verbatim>\<open>generateISOBlueprint\<close> returned, unchecked: at run time it is any JSON value.
\<close>

definition TEMPLATES :: "ISOConfig list" where
  "TEMPLATES =
     [\<lparr>os = UBUNTU, version = ascii ''24.04 LTS'', architecture = X86_64,
       hostname = ascii ''ubuntu-srv'', username = ascii ''sysadmin'', password = None,
       packages = [ascii ''openssh-server'', ascii ''htop'', ascii ''curl'', ascii ''ufw'',
                   ascii ''fail2ban''],
       customScripts =
         ascii ''Enable UFW and allow port 22 by default. Set up a basic hardening script.'',
       isCloudInitEnabled = True\<rparr>,
      \<lparr>os = DEBIAN, version = ascii ''12 (Bookworm)'', architecture = X86_64,
       hostname = ascii ''debian-work'', username = ascii ''user'', password = None,
       packages = [ascii ''task-gnome-desktop'', ascii ''firefox-esr'', ascii ''libreoffice'',
                   ascii ''vlc'', ascii ''git''],
       customScripts =
         ascii ''Install non-free firmware and configure desktop environment scaling for 4K.'',
       isCloudInitEnabled = False\<rparr>,
      \<lparr>os = FEDORA, version = ascii ''40'', architecture = X86_64,
       hostname = ascii ''fedora-cloud-node'', username = ascii ''fedora'', password = None,
       packages = [ascii ''python3'', ascii ''dnf-plugins-core'', ascii ''qemu-guest-agent'',
                   ascii ''cockpit''],
       customScripts =
         ascii ''Configure cockpit for remote management and optimize swap settings for cloud instances.'',
       isCloudInitEnabled = True\<rparr>]"

text \<open>The state of the component when it is mounted (the arguments of \<^verbatim>\<open>useState\<close>).\<close>

definition initial :: App where
  "initial =
     \<lparr>config =
        \<lparr>os = UBUNTU, version = ascii ''24.04 LTS'', architecture = X86_64,
         hostname = ascii ''isoforge-node'', username = ascii ''admin'', password = None,
         packages = [ascii ''vim'', ascii ''curl'', ascii ''docker.io'', ascii ''git''],
         customScripts = [], isCloudInitEnabled = True\<rparr>,
      newPackage = [], isGenerating = False, logs = [], generatedFiles = JArray [],
      activeStep = 1\<rparr>"

text \<open>
  \<^verbatim>\<open>addLog\<close>; \<open>now\<close> is what \<^verbatim>\<open>new Date().toLocaleTimeString()\<close> gives at the call.
\<close>

definition addLog :: "jsstring \<Rightarrow> jsstring \<Rightarrow> LogType \<Rightarrow> App \<Rightarrow> App" where
  "addLog now msg ty st =
     st\<lparr>logs := logs st @ [\<lparr>timestamp = now, message = msg, type = ty\<rparr>]\<rparr>"

definition loadTemplate :: "jsstring \<Rightarrow> ISOConfig \<Rightarrow> App \<Rightarrow> App" where
  "loadTemplate now templateConfig st =
     addLog now
       (ascii ''Loaded '' @ OS_value (os templateConfig) @ ascii '' template configuration.'')
       info
       (st\<lparr>config := templateConfig, generatedFiles := JArray [], logs := []\<rparr>)"

text \<open>A string is truthy when it is not empty.\<close>

definition addPackage :: "App \<Rightarrow> App" where
  "addPackage st =
     (if newPackage st \<noteq> [] \<and> newPackage st \<notin> set (packages (config st))
      then st\<lparr>config := (config st)\<lparr>packages := packages (config st) @ [newPackage st]\<rparr>,
              newPackage := []\<rparr>
      else st)"

definition removePackage :: "jsstring \<Rightarrow> App \<Rightarrow> App" where
  "removePackage pkg st =
     st\<lparr>config := (config st)\<lparr>packages := filter (\<lambda>p. p \<noteq> pkg) (packages (config st))\<rparr>\<rparr>"

text \<open>
  \<^verbatim>\<open>downloadAll\<close>: the file offered for download, as its name and its content, and the
  state with the log entry.
\<close>

definition downloadAll ::
  "(jsstring \<Rightarrow> jsstring) \<Rightarrow> jsstring \<Rightarrow> App \<Rightarrow> (jsstring \<times> jsstring) \<times> App" where
  "downloadAll num now st =
     ((ascii ''isoforge-'' @ toLowerCase (OS_value (os (config st))) @ ascii ''-config.json'',
       JSON_stringify num (generatedFiles st)),
      addLog now (ascii ''Blueprint bundle downloaded successfully.'') success st)"

section \<open>Generation as a suspended computation\<close>

text \<open>
  \<^verbatim>\<open>handleGenerate\<close> is an \<^verbatim>\<open>async\<close> function: it runs until an \<^verbatim>\<open>await\<close>, is suspended
  there, and goes on when the awaited promise settles; other handlers of the page may
  run in between.  It has four \<^verbatim>\<open>await\<close>s: the call of \<^verbatim>\<open>generateISOBlueprint\<close> (line 129)
  and three timers of 800, 600 and 1000 milliseconds (lines 131, 133 and 135).  A
  \<open>task\<close> is an invocation suspended at one of them, with what it needs to go on: the
  prompt it sent, or the value \<^verbatim>\<open>files\<close> it got.
\<close>

datatype task =
    AwaitResponse jsstring
  | Delay800 json
  | Delay600 json
  | Delay1000 json

text \<open>
  The page at run time: the state of the component, the suspended invocations of
  \<^verbatim>\<open>handleGenerate\<close>, the lines written to the console, and the files offered for
  download.
\<close>

record Runtime =
  app :: App
  pending :: "task list"
  console :: "jsstring list"
  downloads :: "(jsstring \<times> jsstring) list"

definition mounted :: Runtime where
  "mounted = \<lparr>app = initial, pending = [], console = [], downloads = []\<rparr>"

text \<open>
  Lines 121 to 129: what \<^verbatim>\<open>handleGenerate\<close> does before it is suspended for the first
  time.  The request goes out with the configuration of the moment.
\<close>

definition handleGenerate_begin :: "jsstring \<Rightarrow> jsstring \<Rightarrow> jsstring \<Rightarrow> Runtime \<Rightarrow> Runtime" where
  "handleGenerate_begin t1 t2 t3 rt =
     (let cfg = config (app rt);
          st1 = (app rt)\<lparr>isGenerating := True, generatedFiles := JArray [], logs := []\<rparr>;
          st2 = addLog t1 (ascii ''Initializing ISOForge AI engine...'') info st1;
          st3 = addLog t2
                  (ascii ''Target Distribution: '' @ OS_value (os cfg) @ ascii '' '' @ version cfg)
                  info st2;
          st4 = addLog t3
                  (ascii ''Consulting AI Architect for optimal partitioning and package dependencies...'')
                  info st3
      in rt\<lparr>app := st4, pending := pending rt @ [AwaitResponse (prompt cfg)]\<rparr>)"

text \<open>
  An invocation goes on.  \<open>resume_call\<close>: the call has settled; a rejection is caught
  (line 142) and the \<^verbatim>\<open>finally\<close> clause ends the invocation, a result is kept and
  the first timer awaited.  \<open>resume_timer\<close>: a timer has fired (lines 132 to 140, and
  the \<^verbatim>\<open>finally\<close> clause after the last).  Each returns the task's next suspension, or
  \<open>None\<close> when the invocation has ended.
\<close>

definition resume_call :: "settled \<Rightarrow> jsstring \<Rightarrow> Runtime \<Rightarrow> Runtime \<times> task option" where
  "resume_call outcome now rt =
     (case after_generateContent outcome of
        (out, Inl (Error msg)) \<Rightarrow>
          (rt\<lparr>app := (addLog now (ascii ''Architectural failure: '' @ msg) error (app rt))
                        \<lparr>isGenerating := False\<rparr>,
              console := console rt @ out\<rparr>,
           None)
      | (out, Inr files) \<Rightarrow> (rt\<lparr>console := console rt @ out\<rparr>, Some (Delay800 files)))"

fun resume_timer :: "task \<Rightarrow> jsstring \<Rightarrow> jsstring \<Rightarrow> Runtime \<Rightarrow> Runtime \<times> task option" where
  "resume_timer (Delay800 files) t1 t2 rt =
     (rt\<lparr>app := addLog t1 (ascii ''Analyzing package manifest...'') info (app rt)\<rparr>,
      Some (Delay600 files))"
| "resume_timer (Delay600 files) t1 t2 rt =
     (rt\<lparr>app := addLog t1 (ascii ''Drafting autoinstall/preseed configurations...'') info (app rt)\<rparr>,
      Some (Delay1000 files))"
| "resume_timer (Delay1000 files) t1 t2 rt =
     (let st1 = addLog t1 (ascii ''Synthesizing bootloader menu and kernel parameters...'') info
                  (app rt);
          st2 = st1\<lparr>generatedFiles := files\<rparr>;
          st3 = addLog t2 (ascii ''ISO Blueprint successfully synthesized!'') success st2
      in (rt\<lparr>app := st3\<lparr>activeStep := 2, isGenerating := False\<rparr>\<rparr>, None))"
| "resume_timer (AwaitResponse p) t1 t2 rt = (rt, Some (AwaitResponse p))"

definition settle :: "nat \<Rightarrow> Runtime \<times> task option \<Rightarrow> Runtime" where
  "settle i r =
     (case r of
        (rt, None) \<Rightarrow> rt\<lparr>pending := take i (pending rt) @ drop (Suc i) (pending rt)\<rparr>
      | (rt, Some t) \<Rightarrow> rt\<lparr>pending := (pending rt)[i := t]\<rparr>)"

text \<open>
  The call of the invocation at place \<open>i\<close> settles, or its timer fires; nothing happens
  when no invocation is suspended there, or not at such an \<^verbatim>\<open>await\<close>.
\<close>

definition call_settled :: "nat \<Rightarrow> settled \<Rightarrow> jsstring \<Rightarrow> Runtime \<Rightarrow> Runtime" where
  "call_settled i outcome now rt =
     (if i < length (pending rt) then
        (case pending rt ! i of
           AwaitResponse p \<Rightarrow> settle i (resume_call outcome now rt)
         | _ \<Rightarrow> rt)
      else rt)"

definition timer_fired :: "nat \<Rightarrow> jsstring \<Rightarrow> jsstring \<Rightarrow> Runtime \<Rightarrow> Runtime" where
  "timer_fired i t1 t2 rt =
     (if i < length (pending rt) then settle i (resume_timer (pending rt ! i) t1 t2 rt) else rt)"

text \<open>
  One invocation of \<^verbatim>\<open>handleGenerate\<close> from its start to its end, with nothing else
  happening in between: the call settles with \<open>outcome\<close>, then the three timers fire.
  \<open>ts\<close> gives the readings of the clock, one for each \<^verbatim>\<open>addLog\<close>.
\<close>

definition handleGenerate :: "(nat \<Rightarrow> jsstring) \<Rightarrow> settled \<Rightarrow> Runtime \<Rightarrow> Runtime" where
  "handleGenerate ts outcome rt =
     (let i = length (pending rt);
          rt1 = handleGenerate_begin (ts 0) (ts 1) (ts 2) rt;
          rt2 = call_settled i outcome (ts 3) rt1;
          rt3 = timer_fired i (ts 3) (ts 3) rt2;
          rt4 = timer_fired i (ts 4) (ts 4) rt3
      in timer_fired i (ts 5) (ts 6) rt4)"

text \<open>
  What can happen to the page: the user acts on a control, the call of a suspended
  invocation settles, or its timer fires.  The events carry the readings of the clock
  that the handler takes.
\<close>

datatype event =
    SelectOS OS
  | ChangeArchitecture Arch
  | ChangeVersion jsstring
  | ChangeHostname jsstring
  | ChangeUsername jsstring
  | ToggleCloudInit bool
  | ChangeCustomScripts jsstring
  | ChangeNewPackage jsstring
  | AddPackage
  | RemovePackage jsstring
  | ClickTemplate nat jsstring
  | ClickGenerate jsstring jsstring jsstring
  | CallSettled nat settled jsstring
  | TimerFired nat jsstring jsstring
  | ClickDownload jsstring

definition on_app :: "(App \<Rightarrow> App) \<Rightarrow> Runtime \<Rightarrow> Runtime" where
  "on_app f rt = rt\<lparr>app := f (app rt)\<rparr>"

text \<open>
  One event.  The button of \<^verbatim>\<open>handleGenerate\<close> is rendered with
  \<^verbatim>\<open>disabled={isGenerating}\<close> (line 358): while \<open>isGenerating\<close> holds, a click on it
  reaches no handler.  The download button is rendered when \<^verbatim>\<open>generatedFiles.length > 0\<close>
  (line 400); how the page renders a value that is not an array is not modelled.
\<close>

fun step :: "(jsstring \<Rightarrow> jsstring) \<Rightarrow> event \<Rightarrow> Runtime \<Rightarrow> Runtime" where
  "step num (SelectOS v) rt = on_app (\<lambda>st. st\<lparr>config := (config st)\<lparr>os := v\<rparr>\<rparr>) rt"
| "step num (ChangeArchitecture v) rt =
     on_app (\<lambda>st. st\<lparr>config := (config st)\<lparr>architecture := v\<rparr>\<rparr>) rt"
| "step num (ChangeVersion v) rt = on_app (\<lambda>st. st\<lparr>config := (config st)\<lparr>version := v\<rparr>\<rparr>) rt"
| "step num (ChangeHostname v) rt = on_app (\<lambda>st. st\<lparr>config := (config st)\<lparr>hostname := v\<rparr>\<rparr>) rt"
| "step num (ChangeUsername v) rt = on_app (\<lambda>st. st\<lparr>config := (config st)\<lparr>username := v\<rparr>\<rparr>) rt"
| "step num (ToggleCloudInit v) rt =
     on_app (\<lambda>st. st\<lparr>config := (config st)\<lparr>isCloudInitEnabled := v\<rparr>\<rparr>) rt"
| "step num (ChangeCustomScripts v) rt =
     on_app (\<lambda>st. st\<lparr>config := (config st)\<lparr>customScripts := v\<rparr>\<rparr>) rt"
| "step num (ChangeNewPackage v) rt = on_app (\<lambda>st. st\<lparr>newPackage := v\<rparr>) rt"
| "step num AddPackage rt = on_app addPackage rt"
| "step num (RemovePackage pkg) rt = on_app (removePackage pkg) rt"
| "step num (ClickTemplate i now) rt =
     (if i < length TEMPLATES then on_app (loadTemplate now (TEMPLATES ! i)) rt else rt)"
| "step num (ClickGenerate t1 t2 t3) rt =
     (if isGenerating (app rt) then rt else handleGenerate_begin t1 t2 t3 rt)"
| "step num (CallSettled i outcome now) rt = call_settled i outcome now rt"
| "step num (TimerFired i t1 t2) rt = timer_fired i t1 t2 rt"
| "step num (ClickDownload now) rt =
     (case generatedFiles (app rt) of
        JArray (v # vs) \<Rightarrow>
          (case downloadAll num now (app rt) of
             (file, st) \<Rightarrow> rt\<lparr>app := st, downloads := downloads rt @ [file]\<rparr>)
      | _ \<Rightarrow> rt)"

definition run :: "(jsstring \<Rightarrow> jsstring) \<Rightarrow> event list \<Rightarrow> Runtime \<Rightarrow> Runtime" where
  "run num evs rt = foldl (\<lambda>r e. step num e r) rt evs"

text \<open>
  Adding a package by its name: the name is typed into the field (\<^verbatim>\<open>setNewPackage\<close>, line
  319), then the button is pressed or the Enter key (\<^verbatim>\<open>addPackage\<close>).
\<close>

definition add_named :: "jsstring \<Rightarrow> App \<Rightarrow> App" where
  "add_named n st = addPackage (st\<lparr>newPackage := n\<rparr>)"

section \<open>Notions for the proofs\<close>

text \<open>
  The tokens of a value, as \<^verbatim>\<open>JSON.stringify\<close> writes it.  A value is \<open>plain\<close> when it
  holds no number and the keys of each of its objects are distinct and no array
  indices: then its properties stand in the order in which a text lists them.
\<close>

fun toks :: "json \<Rightarrow> token list" where
  "toks JNull = [TNull]"
| "toks (JBool b) = [if b then TTrue else TFalse]"
| "toks (JNumber n) = [TNumber n]"
| "toks (JString s) = [TString s]"
| "toks (JArray vs) = LBracket # join_with [Comma] (map toks vs) @ [RBracket]"
| "toks (JObject ps) =
     LBrace # join_with [Comma] (map (\<lambda>p. TString (fst p) # Colon # toks (snd p)) ps) @ [RBrace]"

fun plain :: "json \<Rightarrow> bool" where
  "plain JNull \<longleftrightarrow> True"
| "plain (JBool b) \<longleftrightarrow> True"
| "plain (JNumber n) \<longleftrightarrow> False"
| "plain (JString s) \<longleftrightarrow> True"
| "plain (JArray vs) \<longleftrightarrow> list_all plain vs"
| "plain (JObject ps) \<longleftrightarrow>
     distinct (map fst ps) \<and> list_all (\<lambda>p. \<not> is_array_index (fst p) \<and> plain (snd p)) ps"

text \<open>\<open>tokenizes_to text ts\<close>: before any text, \<open>text\<close> adds the tokens \<open>ts\<close>.\<close>

definition prepend :: "token list \<Rightarrow> token list option \<Rightarrow> token list option" where
  "prepend ts r = (case r of None \<Rightarrow> None | Some us \<Rightarrow> Some (ts @ us))"

definition tokenizes_to :: "jsstring \<Rightarrow> token list \<Rightarrow> bool" where
  "tokenizes_to text ts \<longleftrightarrow> (\<forall>rest. tokenize (text @ rest) = prepend ts (tokenize rest))"

text \<open>
  The log entries of an invocation of \<^verbatim>\<open>handleGenerate\<close>: the three it writes before the
  call, and the four it writes after the call has returned.
\<close>

definition is_error :: "BuildLog \<Rightarrow> bool" where
  "is_error l \<longleftrightarrow> type l = error"

definition begin_logs :: "jsstring \<Rightarrow> jsstring \<Rightarrow> jsstring \<Rightarrow> ISOConfig \<Rightarrow> BuildLog list" where
  "begin_logs t0 t1 t2 cfg =
     [\<lparr>timestamp = t0, message = ascii ''Initializing ISOForge AI engine...'', type = info\<rparr>,
      \<lparr>timestamp = t1,
       message = ascii ''Target Distribution: '' @ OS_value (os cfg) @ ascii '' '' @ version cfg,
       type = info\<rparr>,
      \<lparr>timestamp = t2,
       message = ascii ''Consulting AI Architect for optimal partitioning and package dependencies...'',
       type = info\<rparr>]"

definition success_logs :: "jsstring \<Rightarrow> jsstring \<Rightarrow> jsstring \<Rightarrow> jsstring \<Rightarrow> BuildLog list" where
  "success_logs t3 t4 t5 t6 =
     [\<lparr>timestamp = t3, message = ascii ''Analyzing package manifest...'', type = info\<rparr>,
      \<lparr>timestamp = t4, message = ascii ''Drafting autoinstall/preseed configurations...'',
       type = info\<rparr>,
      \<lparr>timestamp = t5, message = ascii ''Synthesizing bootloader menu and kernel parameters...'',
       type = info\<rparr>,
      \<lparr>timestamp = t6, message = ascii ''ISO Blueprint successfully synthesized!'',
       type = success\<rparr>]"

text \<open>
  A task that waits for the completion service, and the pages on which at most one
  invocation is suspended, and none unless \<open>isGenerating\<close> holds.
\<close>

fun is_request :: "task \<Rightarrow> bool" where
  "is_request (AwaitResponse p) \<longleftrightarrow> True"
| "is_request _ \<longleftrightarrow> False"

definition at_most_one :: "Runtime \<Rightarrow> bool" where
  "at_most_one rt \<longleftrightarrow> length (pending rt) \<le> 1 \<and> (pending rt = [] \<or> isGenerating (app rt))"

section \<open>The parser's length tests\<close>

lemma parse_shorter:
  "\<forall>v rest. parse_value ts = Some (v, rest) \<longrightarrow> length rest < length ts"
  "\<forall>vs rest. parse_elements ts1 = Some (vs, rest) \<longrightarrow> length rest < length ts1"
  "\<forall>ms rest. parse_members ts2 = Some (ms, rest) \<longrightarrow> length rest < length ts2"
proof (induction ts and ts1 and ts2 rule: parse_value_parse_elements_parse_members.induct)
  case (6 rest)
  then show ?case
    by (cases rest) (auto split: option.splits if_splits)
next
  case (7 rest)
  then show ?case
    by (cases rest) (auto split: option.splits if_splits)
next
  case (9 ts)
  show ?case
  proof (intro allI impI)
    fix vs rest assume a: "parse_elements ts = Some (vs, rest)"
    then obtain v r where v: "parse_value ts = Some (v, r)" and r: "length r < length ts"
      by (auto split: option.splits if_splits)
    show "length rest < length ts"
    proof (cases r)
      case Nil
      with a v r show ?thesis by simp
    next
      case (Cons t r')
      show ?thesis
      proof (cases "t = Comma")
        case True
        with a v r Cons obtain vs' where "parse_elements r' = Some (vs', rest)"
          by (auto split: option.splits)
        with 9(2) [OF v refl r Cons True] have "length rest < length r'"
          by blast
        with r Cons show ?thesis by simp
      next
        case False
        with a v r Cons show ?thesis
          by (cases t) auto
      qed
    qed
  qed
next
  case (10 k ts)
  show ?case
  proof (intro allI impI)
    fix ms rest assume a: "parse_members (TString k # Colon # ts) = Some (ms, rest)"
    then obtain v r where v: "parse_value ts = Some (v, r)" and r: "length r < length ts"
      by (auto split: option.splits if_splits)
    show "length rest < length (TString k # Colon # ts)"
    proof (cases r)
      case Nil
      with a v r show ?thesis by simp
    next
      case (Cons t r')
      show ?thesis
      proof (cases "t = Comma")
        case True
        with a v r Cons obtain ms' where "parse_members r' = Some (ms', rest)"
          by (auto split: option.splits)
        with 10(2) [OF v refl r Cons True] have "length rest < length r'"
          by blast
        with r Cons show ?thesis by simp
      next
        case False
        with a v r Cons show ?thesis
          by (cases t) auto
      qed
    qed
  qed
qed auto

lemma parse_value_shorter: "parse_value ts = Some (v, rest) \<Longrightarrow> length rest < length ts"
  using parse_shorter(1) by blast

text \<open>So the length tests of the parser never fail, and can be dropped.\<close>

lemma parse_elements_unguarded:
  "parse_elements ts =
     (case parse_value ts of
        None \<Rightarrow> None
      | Some (v, rest) \<Rightarrow>
          (case rest of
             Comma # rest' \<Rightarrow>
               (case parse_elements rest' of
                  None \<Rightarrow> None
                | Some (vs, rest'') \<Rightarrow> Some (v # vs, rest''))
           | RBracket # rest' \<Rightarrow> Some ([v], rest')
           | _ \<Rightarrow> None))"
  by (auto split: option.splits dest: parse_value_shorter)

lemma parse_members_unguarded:
  "parse_members (TString k # Colon # ts) =
     (case parse_value ts of
        None \<Rightarrow> None
      | Some (v, rest) \<Rightarrow>
          (case rest of
             Comma # rest' \<Rightarrow>
               (case parse_members rest' of
                  None \<Rightarrow> None
                | Some (ms, rest'') \<Rightarrow> Some ((k, v) # ms, rest''))
           | RBrace # rest' \<Rightarrow> Some ([(k, v)], rest')
           | _ \<Rightarrow> None))"
  by (auto split: option.splits dest: parse_value_shorter)

section \<open>Strings are read back as they were written\<close>

lemma unat_hex_digit:
  "n < 16 \<Longrightarrow> unat (hex_digit n) = (if n < 10 then 0x30 + n else 0x61 + (n - 10))"
  unfolding hex_digit_def by (simp only: unat_of_nat if_distrib [of unat]) simp

lemma hex_value_hex_digit: "n < 16 \<Longrightarrow> hex_value (hex_digit n) = Some n"
  unfolding hex_value_def word_le_nat_alt
  by (simp only: unat_hex_digit) (simp split: if_splits)

lemma nibbles_nat:
  "((n div 4096 * 16 + n div 256 mod 16) * 16 + n div 16 mod 16) * 16 + n mod 16 = (n::nat)"
proof -
  have a: "n div 256 = n div 16 div 16"
    using div_mult2_eq [of n 16 16] by simp
  have b: "n div 4096 = n div 256 div 16"
    using div_mult2_eq [of n 256 16] by simp
  have "n div 4096 * 16 + n div 256 mod 16 = n div 256"
    unfolding b by simp
  moreover have "n div 256 * 16 + n div 16 mod 16 = n div 16"
    unfolding a by simp
  ultimately show ?thesis
    by simp
qed

lemma unicode_escape_digits:
  "unicode_escape (hex_digit (unat c div 4096)) (hex_digit (unat c div 256 mod 16))
     (hex_digit (unat c div 16 mod 16)) (hex_digit (unat c mod 16)) = Some c"
proof -
  have "unat c < 65536"
    using unsigned_less [of c] by simp
  then have "unat c div 4096 < 16"
    by simp
  then have h: "hex_value (hex_digit (unat c div 4096)) = Some (unat c div 4096)"
    "hex_value (hex_digit (unat c div 256 mod 16)) = Some (unat c div 256 mod 16)"
    "hex_value (hex_digit (unat c div 16 mod 16)) = Some (unat c div 16 mod 16)"
    "hex_value (hex_digit (unat c mod 16)) = Some (unat c mod 16)"
    by (simp_all add: hex_value_hex_digit)
  have "word_of_nat (unat c) = c"
    by simp
  then show ?thesis
    by (simp only: unicode_escape_def h nibbles_nat option.case prod.case)
qed

lemma scan_string_UnicodeEscape:
  "scan_string (UnicodeEscape c @ xs) = consumed c (scan_string xs)"
  by (simp add: UnicodeEscape_def Let_def unicode_escape_digits)

lemma scan_string_quote_unit:
  "scan_string (quote_unit c @ xs) = consumed c (scan_string xs)"
  by (simp add: quote_unit_def scan_string_UnicodeEscape simple_escape_def)

lemma surrogate_plain:
  assumes "is_leading_surrogate c \<or> is_trailing_surrogate c"
  shows "c \<noteq> 0x22" and "c \<noteq> 0x5C" and "\<not> c < 0x20"
  using assms
  by (auto simp: is_leading_surrogate_def is_trailing_surrogate_def word_le_nat_alt word_less_nat_alt)

lemma scan_string_surrogate:
  "is_leading_surrogate c \<or> is_trailing_surrogate c \<Longrightarrow>
     scan_string (c # xs) = consumed c (scan_string xs)"
  using surrogate_plain [of c] by simp

lemma scan_string_close: "scan_string (0x22 # rest) = Some ([], rest)"
  by simp

lemma scan_string_quote_units:
  "scan_string (quote_units s @ 0x22 # rest) = Some (s, rest)"
  by (induction s rule: quote_units.induct)
     (simp_all del: scan_string.simps
        add: scan_string_UnicodeEscape scan_string_quote_unit scan_string_surrogate
          scan_string_close consumed_def)

lemma tokenize_QuoteJSONString:
  "tokenize (QuoteJSONString s @ rest) = emit (TString s) (tokenize rest)"
  by (simp add: QuoteJSONString_def is_ws_def scan_string_quote_units del: scan_string.simps)

lemma tokenize_ws: "list_all is_ws w \<Longrightarrow> tokenize (w @ rest) = tokenize rest"
  by (induction w) simp_all

lemma list_all_ws_gap: "list_all is_ws indent \<Longrightarrow> list_all is_ws (indent @ gap)"
  by (simp add: gap_def is_ws_def)

section \<open>Values are read back as they were written\<close>

lemma prepend_simps:
  "prepend [] r = r" "prepend ts (prepend us r) = prepend (ts @ us) r" "emit t r = prepend [t] r"
  by (cases r; simp add: prepend_def emit_def)+

lemma tokenizes_to_append:
  "tokenizes_to a ts \<Longrightarrow> tokenizes_to b us \<Longrightarrow> tokenizes_to (a @ b) (ts @ us)"
  by (simp add: tokenizes_to_def prepend_simps)

lemma tokenizes_to_ws: "list_all is_ws w \<Longrightarrow> tokenizes_to w []"
  by (simp add: tokenizes_to_def tokenize_ws prepend_simps)

lemma tokenizes_to_ws_before: "list_all is_ws w \<Longrightarrow> tokenizes_to a ts \<Longrightarrow> tokenizes_to (w @ a) ts"
  using tokenizes_to_append [OF tokenizes_to_ws] by fastforce

lemma tokenizes_to_ws_after: "list_all is_ws w \<Longrightarrow> tokenizes_to a ts \<Longrightarrow> tokenizes_to (a @ w) ts"
  using tokenizes_to_append [OF _ tokenizes_to_ws] by fastforce

lemma tokenizes_to_punct:
  "tokenizes_to [0x5B] [LBracket]" "tokenizes_to [0x5D] [RBracket]"
  "tokenizes_to [0x7B] [LBrace]" "tokenizes_to [0x7D] [RBrace]"
  "tokenizes_to [0x2C] [Comma]" "tokenizes_to [0x3A] [Colon]"
  by (simp_all add: tokenizes_to_def is_ws_def prepend_simps)

lemma tokenizes_to_literal:
  "tokenizes_to (ascii ''null'') [TNull]" "tokenizes_to (ascii ''true'') [TTrue]"
  "tokenizes_to (ascii ''false'') [TFalse]"
  by (simp_all add: tokenizes_to_def is_ws_def ascii_def prepend_simps)

lemma tokenizes_to_string: "tokenizes_to (QuoteJSONString s) [TString s]"
  by (simp add: tokenizes_to_def tokenize_QuoteJSONString prepend_simps)

lemma tokenizes_to_join:
  assumes "xs \<noteq> []" and "\<forall>x \<in> set xs. tokenizes_to (f x) (g x)" and "tokenizes_to sep seps"
  shows "tokenizes_to (join_with sep (map f xs)) (join_with seps (map g xs))"
  using assms
proof (induction xs rule: induct_list012)
  case 1
  then show ?case by simp
next
  case (2 x)
  then show ?case by simp
next
  case (3 x y zs)
  then show ?case
    by (simp add: tokenizes_to_append)
qed

lemma tokenizes_to_Serialize:
  "plain v \<Longrightarrow> list_all is_ws indent \<Longrightarrow> tokenizes_to (SerializeJSONProperty num indent v) (toks v)"
proof (induction v arbitrary: indent)
  case JNull
  then show ?case by (simp add: tokenizes_to_literal)
next
  case (JBool b)
  then show ?case by (simp add: tokenizes_to_literal)
next
  case (JNumber n)
  then show ?case by simp
next
  case (JString s)
  then show ?case by (simp add: tokenizes_to_string)
next
  case (JArray vs)
  show ?case
  proof (cases "vs = []")
    case True
    have "tokenizes_to ([0x5B] @ [0x5D]) ([LBracket] @ [RBracket])"
      by (intro tokenizes_to_append tokenizes_to_punct)
    with True show ?thesis
      by (simp add: ascii_def)
  next
    case False
    have ws: "list_all is_ws (indent @ gap)" "list_all is_ws indent"
      using JArray.prems list_all_ws_gap [of indent] by simp_all
    have ws': "list_all is_ws [0x0A]"
      by (simp add: is_ws_def)
    have each: "\<forall>v \<in> set vs. tokenizes_to (SerializeJSONProperty num (indent @ gap) v) (toks v)"
      using JArray.IH JArray.prems ws(1) by (simp add: list_all_iff)
    have sep: "tokenizes_to ([0x2C] @ [0x0A] @ (indent @ gap)) [Comma]"
      using tokenizes_to_ws_after [OF _ tokenizes_to_punct(5)] ws ws' by simp
    have body: "tokenizes_to (join_with ([0x2C] @ [0x0A] @ (indent @ gap))
                   (map (SerializeJSONProperty num (indent @ gap)) vs))
                 (join_with [Comma] (map toks vs))"
      by (rule tokenizes_to_join [OF False each sep])
    have "tokenizes_to (([0x5B] @ [0x0A] @ (indent @ gap))
             @ join_with ([0x2C] @ [0x0A] @ (indent @ gap))
                  (map (SerializeJSONProperty num (indent @ gap)) vs)
             @ ([0x0A] @ indent @ [0x5D]))
            ([LBracket] @ join_with [Comma] (map toks vs) @ [RBracket])"
      using ws ws'
      by (intro tokenizes_to_append body tokenizes_to_ws_after tokenizes_to_ws_before tokenizes_to_punct) simp_all
    with False show ?thesis
      by simp
  qed
next
  case (JObject ps)
  show ?case
  proof (cases "ps = []")
    case True
    have "tokenizes_to ([0x7B] @ [0x7D]) ([LBrace] @ [RBrace])"
      by (intro tokenizes_to_append tokenizes_to_punct)
    with True show ?thesis
      by (simp add: ascii_def)
  next
    case False
    have ws: "list_all is_ws (indent @ gap)" "list_all is_ws indent"
      using JObject.prems list_all_ws_gap [of indent] by simp_all
    have ws': "list_all is_ws [0x0A]" "list_all is_ws [0x20]"
      by (simp_all add: is_ws_def)
    have vals: "\<forall>p \<in> set ps. tokenizes_to (SerializeJSONProperty num (indent @ gap) (snd p)) (toks (snd p))"
    proof
      fix p assume p: "p \<in> set ps"
      then have "plain (snd p)"
        using JObject.prems(1) by (simp add: list_all_iff)
      moreover have "snd p \<in> Basic_BNFs.snds p"
        by (cases p) simp
      ultimately show "tokenizes_to (SerializeJSONProperty num (indent @ gap) (snd p)) (toks (snd p))"
        using JObject.IH [OF p] ws(1) by blast
    qed
    have each: "\<forall>p \<in> set ps.
        tokenizes_to (QuoteJSONString (fst p) @ ([0x3A] @ [0x20])
                    @ SerializeJSONProperty num (indent @ gap) (snd p))
          ([TString (fst p)] @ [Colon] @ toks (snd p))"
    proof
      fix p assume "p \<in> set ps"
      then have v: "tokenizes_to (SerializeJSONProperty num (indent @ gap) (snd p)) (toks (snd p))"
        using vals by blast
      have c: "tokenizes_to ([0x3A] @ [0x20]) [Colon]"
        using tokenizes_to_ws_after [OF ws'(2) tokenizes_to_punct(6)] .
      show "tokenizes_to (QuoteJSONString (fst p) @ ([0x3A] @ [0x20])
                    @ SerializeJSONProperty num (indent @ gap) (snd p))
          ([TString (fst p)] @ [Colon] @ toks (snd p))"
        by (intro tokenizes_to_append tokenizes_to_string c v)
    qed
    have sep: "tokenizes_to ([0x2C] @ [0x0A] @ (indent @ gap)) [Comma]"
      using tokenizes_to_ws_after [OF _ tokenizes_to_punct(5)] ws ws' by simp
    have body: "tokenizes_to (join_with ([0x2C] @ [0x0A] @ (indent @ gap))
                   (map (\<lambda>p. QuoteJSONString (fst p) @ ([0x3A] @ [0x20])
                                @ SerializeJSONProperty num (indent @ gap) (snd p)) ps))
                 (join_with [Comma] (map (\<lambda>p. [TString (fst p)] @ [Colon] @ toks (snd p)) ps))"
      by (rule tokenizes_to_join [OF False each sep])
    have "tokenizes_to (([0x7B] @ [0x0A] @ (indent @ gap))
             @ join_with ([0x2C] @ [0x0A] @ (indent @ gap))
                   (map (\<lambda>p. QuoteJSONString (fst p) @ ([0x3A] @ [0x20])
                                @ SerializeJSONProperty num (indent @ gap) (snd p)) ps)
             @ ([0x0A] @ indent @ [0x7D]))
            ([LBrace] @ join_with [Comma] (map (\<lambda>p. [TString (fst p)] @ [Colon] @ toks (snd p)) ps)
               @ [RBrace])"
      using ws ws'
      by (intro tokenizes_to_append body tokenizes_to_ws_after tokenizes_to_ws_before tokenizes_to_punct) simp_all
    with False show ?thesis
      by simp
  qed
qed

lemma toks_nonempty: "toks v \<noteq> []"
  by (cases v) simp_all

lemma hd_toks_not_close: "hd (toks v @ rest) \<noteq> RBracket" "hd (toks v @ rest) \<noteq> RBrace"
  by (cases v; simp)+

lemma parse_elements_step:
  assumes "parse_value ts = Some (v, rest)" and "length rest < length ts"
  shows "parse_elements ts =
     (case rest of
        Comma # rest' \<Rightarrow>
          (case parse_elements rest' of
             None \<Rightarrow> None
           | Some (vs, rest'') \<Rightarrow> Some (v # vs, rest''))
      | RBracket # rest' \<Rightarrow> Some ([v], rest')
      | _ \<Rightarrow> None)"
  using assms by simp

lemma parse_members_step:
  assumes "parse_value ts = Some (v, rest)" and "length rest < length ts"
  shows "parse_members (TString k # Colon # ts) =
     (case rest of
        Comma # rest' \<Rightarrow>
          (case parse_members rest' of
             None \<Rightarrow> None
           | Some (ms, rest'') \<Rightarrow> Some ((k, v) # ms, rest''))
      | RBrace # rest' \<Rightarrow> Some ([(k, v)], rest')
      | _ \<Rightarrow> None)"
  using assms by simp

lemma parse_elements_join:
  assumes "vs \<noteq> []"
    and "\<forall>v \<in> set vs. \<forall>rest. parse_value (toks v @ rest) = Some (v, rest)"
  shows "parse_elements (join_with [Comma] (map toks vs) @ RBracket # rest) = Some (vs, rest)"
  using assms
proof (induction vs rule: induct_list012)
  case 1
  then show ?case by simp
next
  case (2 v)
  then have "parse_value (toks v @ RBracket # rest) = Some (v, RBracket # rest)"
    by simp
  from parse_elements_step [OF this] show ?case
    by (simp add: toks_nonempty)
next
  case (3 v w vs)
  let ?tail = "join_with [Comma] (map toks (w # vs)) @ RBracket # rest"
  have "parse_value (toks v @ Comma # ?tail) = Some (v, Comma # ?tail)"
    using 3 by simp
  from parse_elements_step [OF this] have
    "parse_elements (toks v @ Comma # ?tail) =
       (case parse_elements ?tail of None \<Rightarrow> None | Some (vs, r) \<Rightarrow> Some (v # vs, r))"
    by (simp add: toks_nonempty)
  moreover have "parse_elements ?tail = Some (w # vs, rest)"
    using 3 by simp
  ultimately show ?case
    by simp
qed

lemma parse_members_join:
  assumes "ps \<noteq> []"
    and "\<forall>p \<in> set ps. \<forall>rest. parse_value (toks (snd p) @ rest) = Some (snd p, rest)"
  shows "parse_members (join_with [Comma] (map (\<lambda>p. TString (fst p) # Colon # toks (snd p)) ps)
           @ RBrace # rest) = Some (ps, rest)"
  using assms
proof (induction ps rule: induct_list012)
  case 1
  then show ?case by simp
next
  case (2 p)
  then have "parse_value (toks (snd p) @ RBrace # rest) = Some (snd p, RBrace # rest)"
    by simp
  from parse_members_step [OF this, of "fst p"] show ?case
    by (simp add: toks_nonempty)
next
  case (3 p q ps)
  let ?tail = "join_with [Comma] (map (\<lambda>p. TString (fst p) # Colon # toks (snd p)) (q # ps))
                 @ RBrace # rest"
  have "parse_value (toks (snd p) @ Comma # ?tail) = Some (snd p, Comma # ?tail)"
    using 3 by simp
  from parse_members_step [OF this, of "fst p"] have
    "parse_members (TString (fst p) # Colon # toks (snd p) @ Comma # ?tail) =
       (case parse_members ?tail of None \<Rightarrow> None | Some (ms, r) \<Rightarrow> Some ((fst p, snd p) # ms, r))"
    by (simp add: toks_nonempty)
  moreover have "parse_members ?tail = Some (q # ps, rest)"
    using 3 by simp
  ultimately show ?case
    by simp
qed

lemma foldl_CreateDataProperty_append:
  assumes "distinct (map fst ps)" and "fst ` set acc \<inter> fst ` set ps = {}"
    and "list_all (\<lambda>p. \<not> is_array_index (fst p)) ps"
  shows "foldl CreateDataProperty acc ps = acc @ ps"
  using assms
proof (induction ps arbitrary: acc)
  case Nil
  then show ?case by simp
next
  case (Cons p ps)
  obtain k v where p: "p = (k, v)"
    by (cases p)
  have "CreateDataProperty acc p = acc @ [p]"
    using Cons.prems by (auto simp: CreateDataProperty_def p)
  moreover have "foldl CreateDataProperty (acc @ [p]) ps = (acc @ [p]) @ ps"
    using Cons.prems by (intro Cons.IH) auto
  ultimately show ?case
    by simp
qed

lemma object_of_plain:
  "distinct (map fst ps) \<Longrightarrow> list_all (\<lambda>p. \<not> is_array_index (fst p)) ps \<Longrightarrow> object_of ps = JObject ps"
  using foldl_CreateDataProperty_append [of ps "[]"] by (simp add: object_of_def)

declare parse_elements.simps [simp del] parse_members.simps [simp del]

lemma parse_value_toks: "plain v \<Longrightarrow> parse_value (toks v @ rest) = Some (v, rest)"
proof (induction v arbitrary: rest)
  case (JArray vs)
  show ?case
  proof (cases "vs = []")
    case True
    then show ?thesis by simp
  next
    case False
    then obtain w ws where vs: "vs = w # ws"
      by (cases vs) auto
    have first: "hd (join_with [Comma] (map toks vs) @ RBracket # rest) \<noteq> RBracket"
      using hd_toks_not_close(1) [of w] toks_nonempty [of w] by (cases ws) (simp_all add: vs)
    have "\<forall>v \<in> set vs. \<forall>rest. parse_value (toks v @ rest) = Some (v, rest)"
      using JArray by (simp add: list_all_iff)
    from parse_elements_join [OF False this] first show ?thesis
      by simp
  qed
next
  case (JObject ps)
  show ?case
  proof (cases "ps = []")
    case True
    then show ?thesis by simp
  next
    case False
    then obtain q qs where ps: "ps = q # qs"
      by (cases ps) auto
    have first: "hd (join_with [Comma] (map (\<lambda>p. TString (fst p) # Colon # toks (snd p)) ps)
                   @ RBrace # rest) \<noteq> RBrace"
      by (cases qs) (simp_all add: ps)
    have "\<forall>p \<in> set ps. \<forall>rest. parse_value (toks (snd p) @ rest) = Some (snd p, rest)"
    proof (intro ballI allI)
      fix p rest assume p: "p \<in> set ps"
      then have "plain (snd p)"
        using JObject.prems by (simp add: list_all_iff)
      moreover have "snd p \<in> Basic_BNFs.snds p"
        by (cases p) simp
      ultimately show "parse_value (toks (snd p) @ rest) = Some (snd p, rest)"
        using JObject.IH [OF p] by blast
    qed
    from parse_members_join [OF False this] first object_of_plain [of ps] JObject.prems
    show ?thesis
      by (simp add: list_all_iff)
  qed
qed simp_all

lemma JSON_parse_stringify:
  "plain v \<Longrightarrow> JSON_parse (JSON_stringify num v) = Some v"
proof -
  assume p: "plain v"
  then have "tokenizes_to (SerializeJSONProperty num [] v) (toks v)"
    by (rule tokenizes_to_Serialize) simp
  then have "tokenize (SerializeJSONProperty num [] v @ []) = prepend (toks v) (tokenize [])"
    unfolding tokenizes_to_def by blast
  then have "tokenize (JSON_stringify num v) = Some (toks v)"
    by (simp add: JSON_stringify_def prepend_def)
  moreover have "parse_value (toks v @ []) = Some (v, [])"
    using p by (rule parse_value_toks)
  ultimately show ?thesis
    by (simp add: JSON_parse_def)
qed

section \<open>The parser on examples\<close>

text \<open>
  A comma before the closing bracket, two values, and a number with a leading zero are
  refused; white space is dropped; of two members with one key the later value stands,
  at the place of the first, and a key that is an array index comes first; escapes are
  read.
\<close>

lemma JSON_parse_examples:
  \<open>JSON_parse (ascii ''[1,]'') = None\<close>
  \<open>JSON_parse (ascii ''[] []'') = None\<close>
  \<open>JSON_parse (ascii ''{"a":01}'') = None\<close>
  \<open>JSON_parse (ascii '' [ -1.5e+3 , true , null ] '')
     = Some (JArray [JNumber (ascii ''-1.5e+3''), JBool True, JNull])\<close>
  \<open>JSON_parse (ascii ''{"b":"x","1":[],"b":{}}'')
     = Some (JObject [(ascii ''1'', JArray []), (ascii ''b'', JObject [])])\<close>
  \<open>JSON_parse (ascii ''"'' @ [0x5C] @ ascii ''u00e9'' @ [0x5C] @ ascii ''n"'')
     = Some (JString [0xE9, 0x0A])\<close>
  by code_simp+

section \<open>Records with the three fields\<close>

lemma field_names_distinct:
  "ascii ''name'' \<noteq> ascii ''content''" "ascii ''name'' \<noteq> ascii ''language''"
  "ascii ''content'' \<noteq> ascii ''language''"
  by (simp_all add: ascii_def)

lemma field_names_no_index:
  "\<not> is_array_index (ascii ''name'')" "\<not> is_array_index (ascii ''content'')"
  "\<not> is_array_index (ascii ''language'')"
  by (simp_all add: is_array_index_def ascii_def is_digit_def)

lemma string_property_key: "string_property ps k \<Longrightarrow> k \<in> fst ` set ps"
proof -
  assume "string_property ps k"
  then obtain v where "map_of ps k = Some v"
    by (auto simp: string_property_def split: option.splits)
  then have "(k, v) \<in> set ps"
    by (rule map_of_SomeD)
  then show ?thesis
    by force
qed

lemma is_record_keys:
  assumes "is_record (JObject ps)"
  shows "distinct (map fst ps)"
    and "set (map fst ps) = {ascii ''name'', ascii ''content'', ascii ''language''}"
proof -
  let ?K = "{ascii ''name'', ascii ''content'', ascii ''language''}"
  have sub: "?K \<subseteq> set (map fst ps)"
    using assms by (auto dest: string_property_key)
  have len: "length ps = 3"
    using assms by simp
  have cK: "card ?K = 3"
    by (simp add: field_names_distinct)
  have "card ?K \<le> card (set (map fst ps))"
    by (rule card_mono [OF _ sub]) simp
  moreover have le: "card (set (map fst ps)) \<le> length (map fst ps)"
    by (rule card_length)
  ultimately have c: "card (set (map fst ps)) = length (map fst ps)"
    using cK len by simp
  then show "distinct (map fst ps)"
    by (rule card_distinct)
  show "set (map fst ps) = ?K"
    using card_subset_eq [OF _ sub] c cK len by simp
qed

lemma is_record_plain: "is_record v \<Longrightarrow> plain v"
proof (cases v)
  case (JObject ps)
  assume r: "is_record v"
  note keys = is_record_keys [OF r [unfolded JObject]]
  have "\<not> is_array_index (fst p) \<and> plain (snd p)" if p: "p \<in> set ps" for p
  proof -
    have k: "fst p \<in> {ascii ''name'', ascii ''content'', ascii ''language''}"
      using keys(2) p by force
    have m: "map_of ps (fst p) = Some (snd p)"
      using keys(1) p by simp
    have "string_property ps (fst p)"
      using k r JObject by auto
    then have "plain (snd p)"
      by (cases "snd p") (simp_all add: string_property_def m)
    with k show ?thesis
      by (auto simp: field_names_no_index)
  qed
  with keys(1) JObject show ?thesis
    by (simp add: list_all_iff)
qed simp_all

lemma is_record_list_plain: "is_record_list v \<Longrightarrow> plain v"
  by (cases v) (simp_all add: list_all_iff is_record_plain)

lemma GeneratedFiles_json_records: "is_record_list (GeneratedFiles_json fs)"
  by (simp add: GeneratedFiles_json_def GeneratedFile_json_def list_all_iff string_property_def
      field_names_distinct)

section \<open>What the generator makes of a response\<close>

lemma JSON_parse_empty_text: "JSON_parse [] = None"
  by (simp add: JSON_parse_def)

lemma JSON_parse_empty_array: "JSON_parse (ascii ''[]'') = Some (JArray [])"
  by (simp add: JSON_parse_def ascii_def is_ws_def emit_def)

lemma after_generateContent_parsed:
  "JSON_parse text = Some v \<Longrightarrow> after_generateContent (Inr (Some text)) = ([], Inr v)"
  by (cases "text = []") (auto simp: JSON_parse_empty_text)

lemma two_artifacts_parse:
  \<open>JSON_parse (ascii ''[{"name":"a","content":"<b>","language":"sh"},{"language":"","name":"a","content":"<b>"}]'')
     = Some (JArray
         [JObject [(ascii ''name'', JString (ascii ''a'')), (ascii ''content'', JString (ascii ''<b>'')),
                   (ascii ''language'', JString (ascii ''sh''))],
          JObject [(ascii ''language'', JString []), (ascii ''name'', JString (ascii ''a'')),
                   (ascii ''content'', JString (ascii ''<b>''))]])\<close>
  by code_simp

text \<open>
  So the generator reads a list of artifacts back from the text that the export writes
  for it.
\<close>

lemma generateISOBlueprint_reads_export:
  "generateISOBlueprint (\<lambda>p. Inr (Some (JSON_stringify num (GeneratedFiles_json fs)))) cfg
     = ([], Inr (GeneratedFiles_json fs))"
  using after_generateContent_parsed
          [OF JSON_parse_stringify [OF is_record_list_plain [OF GeneratedFiles_json_records]]]
  by (simp add: generateISOBlueprint_def del: after_generateContent.simps)

section \<open>An invocation from start to end\<close>

lemma handleGenerate_begin_eq:
  "handleGenerate_begin t0 t1 t2 rt =
     rt\<lparr>app := (app rt)\<lparr>isGenerating := True, generatedFiles := JArray [],
                          logs := begin_logs t0 t1 t2 (config (app rt))\<rparr>,
        pending := pending rt @ [AwaitResponse (prompt (config (app rt)))]\<rparr>"
  by (simp add: handleGenerate_begin_def Let_def addLog_def begin_logs_def)

lemma handleGenerate_rejected:
  "handleGenerate ts (Inl (Error msg)) rt =
     rt\<lparr>app := (app rt)\<lparr>isGenerating := False, generatedFiles := JArray [],
                          logs := begin_logs (ts 0) (ts 1) (ts 2) (config (app rt))
                            @ [\<lparr>timestamp = ts 3, message = ascii ''Architectural failure: '' @ msg,
                                type = error\<rparr>]\<rparr>\<rparr>"
  by (simp add: handleGenerate_def Let_def handleGenerate_begin_eq call_settled_def
      timer_fired_def settle_def resume_call_def addLog_def)

lemma handleGenerate_resolved:
  assumes "after_generateContent (Inr text) = (out, Inr v)"
  shows "handleGenerate ts (Inr text) rt =
     rt\<lparr>app := (app rt)\<lparr>isGenerating := False, generatedFiles := v,
                          logs := begin_logs (ts 0) (ts 1) (ts 2) (config (app rt)) @ success_logs (ts 3) (ts 4) (ts 5) (ts 6),
                          activeStep := 2\<rparr>,
        console := console rt @ out\<rparr>"
  using assms
  by (simp add: handleGenerate_def Let_def handleGenerate_begin_eq call_settled_def
      timer_fired_def settle_def resume_call_def addLog_def success_logs_def
      del: after_generateContent.simps)

lemma no_error_begin_logs: "filter is_error (begin_logs t0 t1 t2 cfg) = []"
  by (simp add: begin_logs_def is_error_def)

lemma no_error_success_logs: "filter is_error (success_logs t3 t4 t5 t6) = []"
  by (simp add: success_logs_def is_error_def)

section \<open>At most one invocation is suspended\<close>

lemma at_most_one_mounted: "at_most_one mounted"
  by (simp add: at_most_one_def mounted_def)

lemma at_most_one_on_app:
  "at_most_one rt \<Longrightarrow> isGenerating (f (app rt)) = isGenerating (app rt) \<Longrightarrow> at_most_one (on_app f rt)"
  by (simp add: at_most_one_def on_app_def)

lemma isGenerating_handlers:
  "isGenerating (addLog now msg ty st) = isGenerating st"
  "isGenerating (loadTemplate now t st) = isGenerating st"
  "isGenerating (addPackage st) = isGenerating st"
  "isGenerating (removePackage pkg st) = isGenerating st"
  "isGenerating (snd (downloadAll num now st)) = isGenerating st"
  by (simp_all add: addLog_def loadTemplate_def addPackage_def removePackage_def downloadAll_def)

lemma at_most_one_begin:
  "at_most_one rt \<Longrightarrow> \<not> isGenerating (app rt) \<Longrightarrow> at_most_one (handleGenerate_begin t0 t1 t2 rt)"
  by (auto simp: at_most_one_def handleGenerate_begin_eq)

lemma at_most_one_call_settled:
  "at_most_one rt \<Longrightarrow> at_most_one (call_settled i outcome now rt)"
  by (cases "pending rt"; cases "after_generateContent outcome")
     (auto simp: at_most_one_def call_settled_def settle_def resume_call_def addLog_def
        split: task.splits sum.splits Error.splits)

lemma at_most_one_timer_fired:
  "at_most_one rt \<Longrightarrow> at_most_one (timer_fired i t1 t2 rt)"
proof (cases "pending rt")
  case Nil
  then show "at_most_one rt \<Longrightarrow> at_most_one (timer_fired i t1 t2 rt)"
    by (simp add: timer_fired_def)
next
  case (Cons t ts)
  assume a: "at_most_one rt"
  with Cons have ts: "ts = []" and g: "isGenerating (app rt)"
    by (simp_all add: at_most_one_def)
  show "at_most_one (timer_fired i t1 t2 rt)"
    using Cons ts g
    by (cases t) (auto simp: at_most_one_def timer_fired_def settle_def addLog_def Let_def)
qed

lemma at_most_one_step: "at_most_one rt \<Longrightarrow> at_most_one (step num ev rt)"
proof (cases ev)
  case (ClickDownload now)
  assume "at_most_one rt"
  then show ?thesis
    by (auto simp: ClickDownload at_most_one_def downloadAll_def addLog_def
        split: json.splits list.splits)
qed (auto simp: at_most_one_on_app isGenerating_handlers at_most_one_begin
       at_most_one_call_settled at_most_one_timer_fired)

lemma at_most_one_run: "at_most_one rt \<Longrightarrow> at_most_one (run num evs rt)"
  unfolding run_def by (induction evs arbitrary: rt) (simp_all add: at_most_one_step)

section \<open>Packages\<close>

lemma packages_add_named:
  "packages (config (add_named n st)) =
     (if n \<noteq> [] \<and> n \<notin> set (packages (config st)) then packages (config st) @ [n]
      else packages (config st))"
  by (simp add: add_named_def addPackage_def)

lemma distinct_add_named:
  "distinct (packages (config st)) \<Longrightarrow> distinct (packages (config (add_named n st)))"
  by (simp add: packages_add_named)

lemma distinct_foldl_add_named:
  "distinct (packages (config st)) \<Longrightarrow>
     distinct (packages (config (foldl (\<lambda>s n. add_named n s) st names)))"
  by (induction names arbitrary: st) (simp_all add: distinct_add_named)

section \<open>The claims\<close>

text \<open>
  C1.  When the completion service answers with a text that is a JSON array of one or
  more objects that each have the fields \<open>name\<close>, \<open>content\<close> and \<open>language\<close>,
  \<^verbatim>\<open>generateISOBlueprint\<close> returns exactly the elements of that array, in the order of the
  text, and changes, drops or cleans none of them; it writes nothing to the console.
\<close>

theorem generateISOBlueprint_returns_parsed_array:
  assumes "generateContent (prompt cfg) = Inr (Some text)"
    and "JSON_parse text = Some (JArray vs)"
    and "vs \<noteq> []" and "list_all is_GeneratedFile vs"
  shows "generateISOBlueprint generateContent cfg = ([], Inr (JArray vs))"
  using after_generateContent_parsed [OF assms(2)] assms(1)
  by (simp add: generateISOBlueprint_def del: after_generateContent.simps)

text \<open>
  An instance: two artifacts with the same name and with markup in their content, the
  second with its fields in another order and an empty language.
\<close>

theorem generateISOBlueprint_returns_parsed_array_witness:
  \<open>JSON_parse (ascii ''[{"name":"a","content":"<b>","language":"sh"},{"language":"","name":"a","content":"<b>"}]'')
     = Some (JArray
         [JObject [(ascii ''name'', JString (ascii ''a'')), (ascii ''content'', JString (ascii ''<b>'')),
                   (ascii ''language'', JString (ascii ''sh''))],
          JObject [(ascii ''language'', JString []), (ascii ''name'', JString (ascii ''a'')),
                   (ascii ''content'', JString (ascii ''<b>''))]])
   \<and> list_all is_GeneratedFile
         [JObject [(ascii ''name'', JString (ascii ''a'')), (ascii ''content'', JString (ascii ''<b>'')),
                   (ascii ''language'', JString (ascii ''sh''))],
          JObject [(ascii ''language'', JString []), (ascii ''name'', JString (ascii ''a'')),
                   (ascii ''content'', JString (ascii ''<b>''))]]
   \<and> generateISOBlueprint
        (\<lambda>p. Inr (Some (ascii ''[{"name":"a","content":"<b>","language":"sh"},{"language":"","name":"a","content":"<b>"}]'')))
        (config initial)
     = ([], Inr (JArray
         [JObject [(ascii ''name'', JString (ascii ''a'')), (ascii ''content'', JString (ascii ''<b>'')),
                   (ascii ''language'', JString (ascii ''sh''))],
          JObject [(ascii ''language'', JString []), (ascii ''name'', JString (ascii ''a'')),
                   (ascii ''content'', JString (ascii ''<b>''))]]))\<close>
proof -
  let ?vs = "[JObject [(ascii ''name'', JString (ascii ''a'')), (ascii ''content'', JString (ascii ''<b>'')),
                   (ascii ''language'', JString (ascii ''sh''))],
          JObject [(ascii ''language'', JString []), (ascii ''name'', JString (ascii ''a'')),
                   (ascii ''content'', JString (ascii ''<b>''))]]"
  have shape: "list_all is_GeneratedFile ?vs"
    by (simp add: string_property_def field_names_distinct)
  have ne: "?vs \<noteq> []"
    by simp
  from generateISOBlueprint_returns_parsed_array [OF refl two_artifacts_parse ne shape]
    two_artifacts_parse shape
  show ?thesis
    by blast
qed

text \<open>
  C2, as the specification states it, fails: when the outbound call throws,
  \<^verbatim>\<open>generateISOBlueprint\<close> returns no empty sequence; the \<^verbatim>\<open>await\<close> stands before the
  \<^verbatim>\<open>try\<close>, and the exception goes on to the caller.
\<close>

theorem generateISOBlueprint_failures_counterexample:
  "generateISOBlueprint (\<lambda>p. Inl (Error (ascii ''quota exceeded''))) (config initial)
     = ([], Inl (Error (ascii ''quota exceeded'')))
   \<and> snd (generateISOBlueprint (\<lambda>p. Inl (Error (ascii ''quota exceeded''))) (config initial))
     \<noteq> Inr (JArray [])"
  by (simp add: generateISOBlueprint_def)

text \<open>
  C2, amended.  When the text of the response is not empty and fails to parse as JSON,
  \<^verbatim>\<open>generateISOBlueprint\<close> writes the failure to the console and returns the empty
  sequence as an ordinary result, so its caller learns of no failure; when the
  outbound call itself throws, the exception propagates to the caller.
\<close>

theorem generateISOBlueprint_failures:
  "(generateContent (prompt cfg) = Inr (Some text) \<and> text \<noteq> [] \<and> JSON_parse text = None \<longrightarrow>
      generateISOBlueprint generateContent cfg
        = ([ascii ''Failed to parse AI response''], Inr (JArray [])))
   \<and> (generateContent (prompt cfg) = Inl e \<longrightarrow>
      generateISOBlueprint generateContent cfg = ([], Inl e))"
  by (simp add: generateISOBlueprint_def)

theorem generateISOBlueprint_failures_witness:
  "JSON_parse (ascii ''Sorry, I cannot.'') = None
   \<and> generateISOBlueprint (\<lambda>p. Inr (Some (ascii ''Sorry, I cannot.''))) (config initial)
        = ([ascii ''Failed to parse AI response''], Inr (JArray []))
   \<and> generateISOBlueprint (\<lambda>p. Inl (Error (ascii ''quota exceeded''))) (config initial)
        = ([], Inl (Error (ascii ''quota exceeded'')))"
proof -
  have p: "JSON_parse (ascii ''Sorry, I cannot.'') = None"
    by code_simp
  have n: "ascii ''Sorry, I cannot.'' \<noteq> []"
    by (simp add: ascii_def)
  from generateISOBlueprint_failures
         [of "\<lambda>p. Inr (Some (ascii ''Sorry, I cannot.''))" "config initial" "ascii ''Sorry, I cannot.''"]
       generateISOBlueprint_failures
         [of "\<lambda>p. Inl (Error (ascii ''quota exceeded''))" "config initial" _ "Error (ascii ''quota exceeded'')"]
       p n
  show ?thesis
    by simp
qed

text \<open>
  C3, as the specification states it, fails: after a response that is no JSON the log
  holds no entry of severity \<open>error\<close> and ends with the entry of success; and after a
  response that is JSON of another shape, the artifact list is that value, not empty.
\<close>

theorem handleGenerate_malformed_counterexample:
  \<open>JSON_parse (ascii ''Sorry, I cannot.'') = None
   \<and> generatedFiles (app (handleGenerate (\<lambda>k. ascii ''9:41:00 AM'')
         (Inr (Some (ascii ''Sorry, I cannot.''))) mounted)) = JArray []
   \<and> length (filter is_error (logs (app (handleGenerate (\<lambda>k. ascii ''9:41:00 AM'')
         (Inr (Some (ascii ''Sorry, I cannot.''))) mounted)))) = 0
   \<and> type (last (logs (app (handleGenerate (\<lambda>k. ascii ''9:41:00 AM'')
         (Inr (Some (ascii ''Sorry, I cannot.''))) mounted)))) = success
   \<and> generatedFiles (app (handleGenerate (\<lambda>k. ascii ''9:41:00 AM'')
         (Inr (Some (ascii ''{"error":404}''))) mounted))
       = JObject [(ascii ''error'', JNumber (ascii ''404''))]\<close>
proof -
  have p: "JSON_parse (ascii ''Sorry, I cannot.'') = None"
    by code_simp
  have n: "ascii ''Sorry, I cannot.'' \<noteq> []"
    by (simp add: ascii_def)
  have a: "after_generateContent (Inr (Some (ascii ''Sorry, I cannot.'')))
             = ([ascii ''Failed to parse AI response''], Inr (JArray []))"
    using p n by simp
  have q: \<open>JSON_parse (ascii ''{"error":404}'')
             = Some (JObject [(ascii ''error'', JNumber (ascii ''404''))])\<close>
    by code_simp
  note b = after_generateContent_parsed [OF q]
  show ?thesis
    by (simp add: p handleGenerate_resolved [OF a] handleGenerate_resolved [OF b]
        no_error_begin_logs no_error_success_logs)
       (simp add: success_logs_def)
qed

text \<open>
  C3, amended.  Take an invocation of \<^verbatim>\<open>handleGenerate\<close> with no other event in between.
  When the response is a text that is not empty and is no JSON, it ends with an empty
  artifact list and with the failure written to the console only; when the response is
  JSON, of whatever shape, it ends with the parsed value as its artifact list and with
  nothing on the console.  In both cases the log holds the seven entries of a successful
  run, none of severity \<open>error\<close>, and ends with the entry of success; the step shown is
  the second; and the handler ends with \<open>isGenerating\<close> false and no invocation left
  suspended, having thrown nothing.  (What the page then renders for a value that is no
  array of objects is no part of this statement.)
\<close>

theorem handleGenerate_malformed:
  "(let r = handleGenerate ts (Inr (Some text)) rt
    in (text \<noteq> [] \<and> JSON_parse text = None \<longrightarrow>
          generatedFiles (app r) = JArray []
          \<and> console r = console rt @ [ascii ''Failed to parse AI response''])
       \<and> (JSON_parse text = Some v \<longrightarrow>
          generatedFiles (app r) = v
          \<and> console r = console rt)
       \<and> (text \<noteq> [] \<and> JSON_parse text = None \<or> JSON_parse text = Some v \<longrightarrow>
          logs (app r)
            = begin_logs (ts 0) (ts 1) (ts 2) (config (app rt))
              @ success_logs (ts 3) (ts 4) (ts 5) (ts 6)
          \<and> length (logs (app r)) = 7
          \<and> filter is_error (logs (app r)) = []
          \<and> last (logs (app r))
              = \<lparr>timestamp = ts 6, message = ascii ''ISO Blueprint successfully synthesized!'',
                 type = success\<rparr>
          \<and> activeStep (app r) = 2
          \<and> \<not> isGenerating (app r)
          \<and> pending r = pending rt))"
proof -
  have both: "logs (app r)
            = begin_logs (ts 0) (ts 1) (ts 2) (config (app rt))
              @ success_logs (ts 3) (ts 4) (ts 5) (ts 6)
          \<and> length (logs (app r)) = 7
          \<and> filter is_error (logs (app r)) = []
          \<and> last (logs (app r))
              = \<lparr>timestamp = ts 6, message = ascii ''ISO Blueprint successfully synthesized!'',
                 type = success\<rparr>
          \<and> activeStep (app r) = 2
          \<and> \<not> isGenerating (app r)
          \<and> pending r = pending rt
          \<and> generatedFiles (app r) = w
          \<and> console r = console rt @ out"
    if a: "after_generateContent (Inr (Some text)) = (out, Inr w)"
      and r: "r = handleGenerate ts (Inr (Some text)) rt" for r out w
    unfolding r handleGenerate_resolved [OF a]
    by (simp add: no_error_begin_logs no_error_success_logs)
       (simp add: begin_logs_def success_logs_def)
  have bad: "after_generateContent (Inr (Some text))
               = ([ascii ''Failed to parse AI response''], Inr (JArray []))"
    if "text \<noteq> [] \<and> JSON_parse text = None"
    using that by simp
  have good: "after_generateContent (Inr (Some text)) = ([], Inr v)"
    if "JSON_parse text = Some v"
    using that by (rule after_generateContent_parsed)
  show ?thesis
    unfolding Let_def
    using both [OF bad refl] both [OF good refl]
    by auto
qed

theorem handleGenerate_malformed_witness:
  \<open>ascii ''not json'' \<noteq> [] \<and> JSON_parse (ascii ''not json'') = None
   \<and> generatedFiles (app (handleGenerate (\<lambda>k. []) (Inr (Some (ascii ''not json''))) mounted)) = JArray []
   \<and> console (handleGenerate (\<lambda>k. []) (Inr (Some (ascii ''not json''))) mounted)
        = [ascii ''Failed to parse AI response'']
   \<and> length (logs (app (handleGenerate (\<lambda>k. []) (Inr (Some (ascii ''not json''))) mounted))) = 7
   \<and> filter is_error (logs (app (handleGenerate (\<lambda>k. []) (Inr (Some (ascii ''not json''))) mounted))) = []
   \<and> last (logs (app (handleGenerate (\<lambda>k. []) (Inr (Some (ascii ''not json''))) mounted)))
        = \<lparr>timestamp = [], message = ascii ''ISO Blueprint successfully synthesized!'',
           type = success\<rparr>
   \<and> \<not> isGenerating (app (handleGenerate (\<lambda>k. []) (Inr (Some (ascii ''not json''))) mounted))
   \<and> pending (handleGenerate (\<lambda>k. []) (Inr (Some (ascii ''not json''))) mounted) = []
   \<and> JSON_parse (ascii ''{"files":[]}'') = Some (JObject [(ascii ''files'', JArray [])])
   \<and> generatedFiles (app (handleGenerate (\<lambda>k. []) (Inr (Some (ascii ''{"files":[]}''))) mounted))
        = JObject [(ascii ''files'', JArray [])]
   \<and> console (handleGenerate (\<lambda>k. []) (Inr (Some (ascii ''{"files":[]}''))) mounted) = []
   \<and> filter is_error (logs (app (handleGenerate (\<lambda>k. []) (Inr (Some (ascii ''{"files":[]}''))) mounted))) = []
   \<and> last (logs (app (handleGenerate (\<lambda>k. []) (Inr (Some (ascii ''{"files":[]}''))) mounted)))
        = \<lparr>timestamp = [], message = ascii ''ISO Blueprint successfully synthesized!'',
           type = success\<rparr>\<close>
proof -
  have p: "JSON_parse (ascii ''not json'') = None"
    by code_simp
  have n: "ascii ''not json'' \<noteq> []"
    by (simp add: ascii_def)
  have q: \<open>JSON_parse (ascii ''{"files":[]}'') = Some (JObject [(ascii ''files'', JArray [])])\<close>
    by code_simp
  have m: "pending mounted = []" "console mounted = []"
    by (simp_all add: mounted_def)
  have bad: "ascii ''not json'' \<noteq> [] \<and> JSON_parse (ascii ''not json'') = None"
    using p n by simp
  note a = handleGenerate_malformed
             [of "\<lambda>k. []" "ascii ''not json''" mounted JNull, unfolded Let_def]
  note b = handleGenerate_malformed
             [of "\<lambda>k. []" "ascii ''{\"files\":[]}''" mounted "JObject [(ascii ''files'', JArray [])]",
              unfolded Let_def]
  note a1 = a [THEN conjunct1, rule_format, OF bad]
  note a3 = a [THEN conjunct2, THEN conjunct2, rule_format, OF disjI1, OF bad, THEN conjunct2]
  note b2 = b [THEN conjunct2, THEN conjunct1, rule_format, OF q]
  note b3 = b [THEN conjunct2, THEN conjunct2, rule_format, OF disjI2, OF q, THEN conjunct2]
  from a1 a3 b2 b3 p n q show ?thesis
    by (simp add: m)
qed

text \<open>
  C4.  From a configuration whose package list has no duplicates, any sequence of
  package additions, whatever the names, their order and their repetitions, leads to a
  package list with no duplicates; and adding a name that is already in the list leaves
  the list as it was.
\<close>

theorem addPackage_keeps_distinct:
  assumes "distinct (packages (config st))"
  shows "distinct (packages (config (foldl (\<lambda>s n. add_named n s) st names)))
    \<and> (n \<in> set (packages (config st)) \<longrightarrow>
          packages (config (add_named n st)) = packages (config st))"
  using assms by (simp add: distinct_foldl_add_named packages_add_named)

theorem addPackage_keeps_distinct_witness:
  "distinct (packages (config initial))
   \<and> distinct (packages (config (foldl (\<lambda>s n. add_named n s) initial
         [ascii ''nginx'', ascii ''vim'', ascii ''nginx'', [], ascii ''curl''])))
   \<and> ascii ''vim'' \<in> set (packages (config initial))
   \<and> packages (config (add_named (ascii ''vim'') initial)) = packages (config initial)
   \<and> packages (config (foldl (\<lambda>s n. add_named n s) initial
         [ascii ''nginx'', ascii ''vim'', ascii ''nginx'', [], ascii ''curl'']))
       = [ascii ''vim'', ascii ''curl'', ascii ''docker.io'', ascii ''git'', ascii ''nginx'']"
proof -
  have d: "distinct (packages (config initial))"
    by (simp add: initial_def ascii_def)
  have m: "ascii ''vim'' \<in> set (packages (config initial))"
    by (simp add: initial_def)
  have r: "packages (config (foldl (\<lambda>s n. add_named n s) initial
         [ascii ''nginx'', ascii ''vim'', ascii ''nginx'', [], ascii ''curl'']))
       = [ascii ''vim'', ascii ''curl'', ascii ''docker.io'', ascii ''git'', ascii ''nginx'']"
    by (simp add: packages_add_named initial_def ascii_def add_named_def addPackage_def)
  from addPackage_keeps_distinct [OF d, of "[ascii ''nginx'', ascii ''vim'', ascii ''nginx'', [], ascii ''curl'']" "ascii ''vim''"]
    d m r show ?thesis
    by blast
qed

text \<open>
  C5, as the specification states it, fails: after a template has been loaded the log
  is not empty, for \<^verbatim>\<open>loadTemplate\<close> clears it and then writes one entry.
\<close>

theorem loadTemplate_log_counterexample:
  "logs (loadTemplate (ascii ''9:41:00 AM'') (TEMPLATES ! 0) initial)
     = [\<lparr>timestamp = ascii ''9:41:00 AM'', message = ascii ''Loaded Ubuntu template configuration.'',
         type = info\<rparr>]
   \<and> logs (loadTemplate (ascii ''9:41:00 AM'') (TEMPLATES ! 0) initial) \<noteq> []"
  by (simp add: loadTemplate_def addLog_def TEMPLATES_def ascii_def)

text \<open>
  C5, amended.  For every state and every template, loading the template makes the
  template the configuration, every field of it, empties the artifact list, and leaves
  in the log exactly one entry, of severity \<open>info\<close>, that names the template's system.
\<close>

theorem loadTemplate_replaces:
  "config (loadTemplate now t st) = t
   \<and> generatedFiles (loadTemplate now t st) = JArray []
   \<and> logs (loadTemplate now t st)
       = [\<lparr>timestamp = now,
           message = ascii ''Loaded '' @ OS_value (os t) @ ascii '' template configuration.'',
           type = info\<rparr>]"
  by (simp add: loadTemplate_def addLog_def)

text \<open>
  C6.  In every state the page reaches from its mounting, by whatever events, at most one
  invocation of \<^verbatim>\<open>handleGenerate\<close> is suspended, so at most one request is with the
  completion service; and while one is suspended, a click on the button of generation
  changes nothing.
\<close>

theorem one_request_at_a_time:
  "length (pending (run num evs mounted)) \<le> 1
   \<and> length (filter is_request (pending (run num evs mounted))) \<le> 1
   \<and> (pending (run num evs mounted) \<noteq> [] \<longrightarrow>
        step num (ClickGenerate t0 t1 t2) (run num evs mounted) = run num evs mounted)"
proof -
  have a: "at_most_one (run num evs mounted)"
    by (rule at_most_one_run [OF at_most_one_mounted])
  then have b: "length (pending (run num evs mounted)) \<le> 1"
    by (simp add: at_most_one_def)
  have c: "length (filter is_request (pending (run num evs mounted))) \<le> 1"
    by (rule le_trans [OF length_filter_le b])
  have d: "step num (ClickGenerate t0 t1 t2) (run num evs mounted) = run num evs mounted"
    if "pending (run num evs mounted) \<noteq> []"
    using a that by (simp add: at_most_one_def)
  from b c d show ?thesis
    by blast
qed

theorem one_request_at_a_time_witness:
  "pending (run id [ClickGenerate [] [] []] mounted) = [AwaitResponse (prompt (config initial))]
   \<and> step id (ClickGenerate [] [] []) (run id [ClickGenerate [] [] []] mounted)
        = run id [ClickGenerate [] [] []] mounted
   \<and> length (filter is_request (pending (run id [ClickGenerate [] [] [], ClickGenerate [] [] []] mounted))) \<le> 1"
proof -
  have p: "pending (run id [ClickGenerate [] [] []] mounted) = [AwaitResponse (prompt (config initial))]"
    by (simp add: run_def mounted_def handleGenerate_begin_eq initial_def)
  from one_request_at_a_time [of id "[ClickGenerate [] [] []]" "[]" "[]" "[]"]
       one_request_at_a_time [of id "[ClickGenerate [] [] [], ClickGenerate [] [] []]" "[]" "[]" "[]"] p
  show ?thesis
    by simp
qed

text \<open>
  C7, as the specification states it, fails: while its call is outstanding,
  \<^verbatim>\<open>handleGenerate\<close> has already set \<open>isGenerating\<close> and written three entries to the log;
  and when the call has returned, the invocation is suspended again, at a timer.
\<close>

theorem handleGenerate_suspensions_counterexample:
  "pending (step id (ClickGenerate [] [] []) mounted) = [AwaitResponse (prompt (config initial))]
   \<and> isGenerating (app (step id (ClickGenerate [] [] []) mounted))
   \<and> \<not> isGenerating (app mounted)
   \<and> length (logs (app (step id (ClickGenerate [] [] []) mounted))) = 3
   \<and> pending (run id [ClickGenerate [] [] [], CallSettled 0 (Inr None) []] mounted)
       = [Delay800 (JArray [])]"
  by (simp add: run_def mounted_def initial_def handleGenerate_begin_eq begin_logs_def
      call_settled_def settle_def resume_call_def JSON_parse_empty_array)

text \<open>
  C7, amended.  An invocation of \<^verbatim>\<open>handleGenerate\<close> sets \<open>isGenerating\<close>, empties the
  artifact list and the log and writes three entries, and then is suspended at the
  outbound call; when the call has returned a value it is suspended three more times, at
  timers of 800, 600 and 1000 milliseconds, and writes one entry after each of the first
  two, which leave the artifact list as it is; only after the last timer does it store
  the value as the artifact list.
\<close>

theorem handleGenerate_suspensions:
  "handleGenerate_begin t0 t1 t2 rt
     = rt\<lparr>app := (app rt)\<lparr>isGenerating := True, generatedFiles := JArray [],
                            logs := begin_logs t0 t1 t2 (config (app rt))\<rparr>,
          pending := pending rt @ [AwaitResponse (prompt (config (app rt)))]\<rparr>
   \<and> (after_generateContent outcome = (out, Inr files) \<longrightarrow>
        resume_call outcome now rt = (rt\<lparr>console := console rt @ out\<rparr>, Some (Delay800 files)))
   \<and> resume_timer (Delay800 files) t3 t3' rt
        = (rt\<lparr>app := addLog t3 (ascii ''Analyzing package manifest...'') info (app rt)\<rparr>,
           Some (Delay600 files))
   \<and> resume_timer (Delay600 files) t4 t4' rt
        = (rt\<lparr>app := addLog t4 (ascii ''Drafting autoinstall/preseed configurations...'') info
                        (app rt)\<rparr>,
           Some (Delay1000 files))
   \<and> snd (resume_timer (Delay1000 files) t5 t6 rt) = None
   \<and> generatedFiles (app (fst (resume_timer (Delay1000 files) t5 t6 rt))) = files
   \<and> generatedFiles (addLog now msg ty st) = generatedFiles st"
  by (simp add: handleGenerate_begin_eq resume_call_def addLog_def Let_def)

theorem handleGenerate_suspensions_witness:
  "after_generateContent (Inr None) = ([], Inr (JArray []))
   \<and> resume_call (Inr None) [] mounted = (mounted, Some (Delay800 (JArray [])))"
  using handleGenerate_suspensions
          [where outcome = "Inr None" and out = "[]" and files = "JArray []" and now = "[]"
             and rt = mounted]
  by (simp add: JSON_parse_empty_array mounted_def)

text \<open>
  C8.  When the artifact list is a sequence of records with the fields \<open>name\<close>, \<open>content\<close>
  and \<open>language\<close>, in whatever order and with whatever strings, the document that
  \<^verbatim>\<open>downloadAll\<close> exports parses back to that very sequence.
\<close>

theorem export_roundtrip:
  assumes "is_record_list (generatedFiles st)"
  shows "JSON_parse (snd (fst (downloadAll num now st))) = Some (generatedFiles st)"
  using JSON_parse_stringify [OF is_record_list_plain [OF assms]]
  by (simp add: downloadAll_def)

text \<open>
  An instance whose content holds a quote, a backslash, a line feed, a pair of surrogates
  and a lone one; and the text of a small export.
\<close>

theorem export_roundtrip_witness:
  "is_record_list
     (JArray [JObject [(ascii ''content'', JString [0x22, 0x5C, 0x0A, 0xD83D, 0xDE00, 0xDC00, 0x7F]),
                       (ascii ''name'', JString (ascii ''build.sh'')),
                       (ascii ''language'', JString [])]])
   \<and> JSON_parse (snd (fst (downloadAll id [] (initial\<lparr>generatedFiles :=
        JArray [JObject [(ascii ''content'', JString [0x22, 0x5C, 0x0A, 0xD83D, 0xDE00, 0xDC00, 0x7F]),
                         (ascii ''name'', JString (ascii ''build.sh'')),
                         (ascii ''language'', JString [])]]\<rparr>))))
      = Some (JArray [JObject [(ascii ''content'', JString [0x22, 0x5C, 0x0A, 0xD83D, 0xDE00, 0xDC00, 0x7F]),
                       (ascii ''name'', JString (ascii ''build.sh'')),
                       (ascii ''language'', JString [])]])"
proof -
  let ?v = "JArray [JObject [(ascii ''content'', JString [0x22, 0x5C, 0x0A, 0xD83D, 0xDE00, 0xDC00, 0x7F]),
                       (ascii ''name'', JString (ascii ''build.sh'')),
                       (ascii ''language'', JString [])]]"
  have r: "is_record_list (generatedFiles (initial\<lparr>generatedFiles := ?v\<rparr>))"
    by (simp add: string_property_def field_names_distinct field_names_distinct [symmetric])
  from export_roundtrip [OF r, of id "[]"] r show ?thesis
    by simp
qed

lemma downloadAll_example:
  \<open>fst (downloadAll id now (initial\<lparr>generatedFiles :=
       GeneratedFiles_json [\<lparr>name = ascii ''a'', content = [0x22, 0x0A, 0xDC00], language = []\<rparr>]\<rparr>))
     = (ascii ''isoforge-ubuntu-config.json'',
        ascii ''['' @ [0x0A]
        @ ascii ''  {'' @ [0x0A]
        @ ascii ''    "name": "a",'' @ [0x0A]
        @ ascii ''    "content": "'' @ [0x5C] @ ascii ''"'' @ [0x5C] @ ascii ''n'' @ [0x5C] @ ascii ''udc00",'' @ [0x0A]
        @ ascii ''    "language": ""'' @ [0x0A]
        @ ascii ''  }'' @ [0x0A]
        @ ascii '']'')\<close>
  by (simp add: downloadAll_def initial_def toLowerCase_def ascii_def JSON_stringify_def
      GeneratedFiles_json_def GeneratedFile_json_def QuoteJSONString_def quote_unit_def
      UnicodeEscape_def hex_digit_def is_leading_surrogate_def is_trailing_surrogate_def gap_def)

text \<open>
  C9.  Whenever the text of the response parses as JSON, \<^verbatim>\<open>generateISOBlueprint\<close> returns
  the parsed value as it is, whatever its shape; and there are such texts whose value is
  neither a list of artifacts nor the empty list.
\<close>

theorem generateISOBlueprint_unchecked:
  "(generateContent (prompt cfg) = Inr (Some text) \<and> JSON_parse text = Some v \<longrightarrow>
      generateISOBlueprint generateContent cfg = ([], Inr v))
   \<and> (\<exists>text v. JSON_parse text = Some v \<and> \<not> is_GeneratedFile_list v \<and> v \<noteq> JArray []
         \<and> generateISOBlueprint (\<lambda>p. Inr (Some text)) cfg = ([], Inr v))"
proof -
  have p: \<open>JSON_parse (ascii ''{"error":404}'') = Some (JObject [(ascii ''error'', JNumber (ascii ''404''))])\<close>
    by code_simp
  have "generateISOBlueprint (\<lambda>p. Inr (Some (ascii ''{\"error\":404}''))) cfg
          = ([], Inr (JObject [(ascii ''error'', JNumber (ascii ''404''))]))"
    using after_generateContent_parsed [OF p]
    by (simp add: generateISOBlueprint_def del: after_generateContent.simps)
  with p have "\<exists>text v. JSON_parse text = Some v \<and> \<not> is_GeneratedFile_list v \<and> v \<noteq> JArray []
         \<and> generateISOBlueprint (\<lambda>p. Inr (Some text)) cfg = ([], Inr v)"
    by (intro exI [of _ "ascii ''{\"error\":404}''"]
          exI [of _ "JObject [(ascii ''error'', JNumber (ascii ''404''))]"]) simp
  moreover have "generateISOBlueprint generateContent cfg = ([], Inr v)"
    if "generateContent (prompt cfg) = Inr (Some text)" and "JSON_parse text = Some v"
    using after_generateContent_parsed [OF that(2)] that(1)
    by (simp add: generateISOBlueprint_def del: after_generateContent.simps)
  ultimately show ?thesis
    by blast
qed

theorem generateISOBlueprint_unchecked_witness:
  \<open>JSON_parse (ascii ''[7,null]'') = Some (JArray [JNumber (ascii ''7''), JNull])
   \<and> generateISOBlueprint (\<lambda>p. Inr (Some (ascii ''[7,null]''))) (config initial)
       = ([], Inr (JArray [JNumber (ascii ''7''), JNull]))
   \<and> \<not> is_GeneratedFile_list (JArray [JNumber (ascii ''7''), JNull])\<close>
proof -
  have p: \<open>JSON_parse (ascii ''[7,null]'') = Some (JArray [JNumber (ascii ''7''), JNull])\<close>
    by code_simp
  from generateISOBlueprint_unchecked
         [of "\<lambda>p. Inr (Some (ascii ''[7,null]''))" "config initial" "ascii ''[7,null]''"
             "JArray [JNumber (ascii ''7''), JNull]"] p
  show ?thesis
    by simp
qed

text \<open>
  C10.  When the call succeeds and the response has no text, or an empty one,
  \<^verbatim>\<open>generateISOBlueprint\<close> returns the empty list as an ordinary result and writes nothing
  to the console.
\<close>

theorem generateISOBlueprint_without_text:
  "generateISOBlueprint (\<lambda>p. Inr None) cfg = ([], Inr (JArray []))
   \<and> generateISOBlueprint (\<lambda>p. Inr (Some [])) cfg = ([], Inr (JArray []))"
  by (simp add: generateISOBlueprint_def JSON_parse_empty_array)

end
